theory Spec2Isabelle
  imports Main
begin

section \<open>Syntax trees consumed by the stub generator\<close>

text \<open>
  Modelled from the spec: the node classes of \<^verbatim>\<open>mypy.nodes\<close>, which
  \<^verbatim>\<open>mypy/stubgen.py\<close> imports and which are not among the sources.  The expression
  shapes are those of the data model that the generator tests by \<^verbatim>\<open>isinstance\<close>
  (integer, string, byte-string and float literals, unary expression, name, member access,
  tuple, list, comparison), plus a call expression that stands for every other shape.  The
  attributes are the ones the generator reads: \<^verbatim>\<open>value\<close>, \<^verbatim>\<open>op\<close> and \<^verbatim>\<open>expr\<close>,
  \<^verbatim>\<open>name\<close>, \<^verbatim>\<open>items\<close>, \<^verbatim>\<open>operators\<close> and \<^verbatim>\<open>operands\<close>.  A \<^verbatim>\<open>FloatExpr\<close>
  carries the text that \<^verbatim>\<open>str\<close> gives for its value, the only way the generator could
  read it.
\<close>

datatype expr =
    IntExpr int
  | StrExpr string
  | BytesExpr string
  | FloatExpr string
  | UnaryExpr string expr
  | NameExpr string
  | MemberExpr expr string
  | TupleExpr "expr list"
  | ListExpr "expr list"
  | ComparisonExpr "string list" "expr list"
  | CallExpr expr "expr list"

text \<open>
  Modelled from the spec: the kind tag of a parameter (positional, star-args, keyword-only,
  double-star-args); the generator imports three of the constants from \<^verbatim>\<open>mypy.nodes\<close>
  and compares with them only.
\<close>

datatype arg_kind = ARG_POS | ARG_STAR | ARG_NAMED | ARG_STAR2

text \<open>
  Modelled from the spec: the statement nodes of \<^verbatim>\<open>mypy.nodes\<close> that the data model
  lists, with the attributes the generator reads.  \<^verbatim>\<open>FuncDef name args arg_kinds init
  body\<close> has the three parallel lists of the function node; an entry of \<^verbatim>\<open>init\<close> is
  \<^verbatim>\<open>None\<close> or the initialiser whose \<^verbatim>\<open>rvalue\<close> is the default expression, kept here
  as that expression.  \<^verbatim>\<open>Decorator decorators func\<close> wraps a function definition.
  \<^verbatim>\<open>ClassDef name base_type_exprs defs\<close>, \<^verbatim>\<open>AssignmentStmt lvalues rvalue\<close>,
  \<^verbatim>\<open>IfStmt expr body else_body\<close> (one condition and one block per branch) and
  \<^verbatim>\<open>ImportAll id\<close> follow.  \<^verbatim>\<open>PassStmt\<close> and \<^verbatim>\<open>ExpressionStmt\<close> stand for the
  statements without declarations inside; loops, \<^verbatim>\<open>try\<close> and \<^verbatim>\<open>with\<close> statements
  are not modelled.
\<close>

datatype stmt =
    FuncDef string "string list" "arg_kind list" "expr option list" "stmt list"
  | Decorator "expr list" stmt
  | ClassDef string "expr list" "stmt list"
  | AssignmentStmt "expr list" expr
  | IfStmt "expr list" "stmt list list" "stmt list option"
  | ImportAll string
  | PassStmt
  | ExpressionStmt expr

section \<open>Generator state\<close>

text \<open>What was generated previously.\<close>

datatype fstate = EMPTY | FUNC | CLASS | EMPTY_CLASS | VAR

text \<open>The exceptions the generator can raise on a tree.\<close>

datatype error = IndexError | AttributeError | UnboundLocalError

record gen =
  s_output :: "string list"
  s_import_lines :: "string list"
  s_imports :: "string list"
  s_indent :: string
  s_vars :: "string list list"
  s_state :: fstate
  s_classes :: "string set"

text \<open>
  \<^verbatim>\<open>StubGenerator.__init__\<close>.  The attribute \<^verbatim>\<open>_classes\<close> is assigned by
  \<^verbatim>\<open>visit_mypy_file\<close> before anything else is visited; until then it is empty here.
\<close>

definition StubGenerator_init :: gen where
  "StubGenerator_init =
     \<lparr>s_output = [], s_import_lines = [], s_imports = [], s_indent = [], s_vars = [[]],
      s_state = EMPTY, s_classes = {}\<rparr>"

section \<open>String operations of the host language\<close>

definition startswith :: "string \<Rightarrow> string \<Rightarrow> bool" where
  "startswith s p = (take (length p) s = p)"

definition endswith :: "string \<Rightarrow> string \<Rightarrow> bool" where
  "endswith s p = (length p \<le> length s \<and> drop (length s - length p) s = p)"

text \<open>\<^verbatim>\<open>sub in s\<close> on strings.\<close>

fun contains :: "string \<Rightarrow> string \<Rightarrow> bool" where
  "contains sub [] = (sub = [])"
| "contains sub (c # cs) = (startswith (c # cs) sub \<or> contains sub cs)"

text \<open>\<^verbatim>\<open>sep.join(xs)\<close>.\<close>

fun join :: "string \<Rightarrow> string list \<Rightarrow> string" where
  "join sep [] = []"
| "join sep [x] = x"
| "join sep (x # y # ys) = x @ sep @ join sep (y # ys)"

text \<open>\<^verbatim>\<open>str\<close> of an integer.\<close>

fun str_nat :: "nat \<Rightarrow> string" where
  "str_nat n = (if n < 10 then [''0123456789'' ! n]
                else str_nat (n div 10) @ [''0123456789'' ! (n mod 10)])"

definition str_int :: "int \<Rightarrow> string" where
  "str_int i = (if i < 0 then CHR ''-'' # str_nat (nat (- i)) else str_nat (nat i))"

section \<open>The name classifier and the output buffer\<close>

definition is_private_name :: "string \<Rightarrow> bool" where
  "is_private_name name =
     (startswith name ''_'' \<and>
      (\<not> endswith name ''__'' \<or> name \<in> {''__all__'', ''__author__'', ''__version__''}))"

definition add :: "string \<Rightarrow> gen \<Rightarrow> gen" where
  "add string s = s\<lparr>s_output := s_output s @ [string]\<rparr>"

definition add_import :: "string \<Rightarrow> gen \<Rightarrow> gen" where
  "add_import name s =
     (if name \<notin> set (s_imports s) then s\<lparr>s_imports := s_imports s @ [name]\<rparr> else s)"

definition add_import_line :: "string \<Rightarrow> gen \<Rightarrow> gen" where
  "add_import_line line s = s\<lparr>s_import_lines := s_import_lines s @ [line]\<rparr>"

text \<open>
  \<^verbatim>\<open>add_init\<close>: reading \<^verbatim>\<open>self._vars[-1]\<close> raises on an empty scope stack; otherwise
  the result says whether the name was newly declared.
\<close>

definition add_init :: "string \<Rightarrow> gen \<Rightarrow> error + (bool \<times> gen)" where
  "add_init lvalue s =
     (if s_vars s = [] then Inl IndexError
      else if lvalue \<in> set (last (s_vars s)) then Inr (False, s)
      else if is_private_name lvalue then Inr (False, s)
      else
        (let s1 = s\<lparr>s_vars := butlast (s_vars s) @ [last (s_vars s) @ [lvalue]]\<rparr>;
             s2 = add (s_indent s1 @ lvalue @ '' = Undefined(Any)\<newline>'') s1;
             s3 = add_import ''Undefined'' s2;
             s4 = add_import ''Any'' s3
         in Inr (True, s4)))"

text \<open>\<^verbatim>\<open>StubGenerator.output\<close>.\<close>

definition gen_output :: "gen \<Rightarrow> string" where
  "gen_output s =
     (let imports0 = [];
          imports1 = (if s_imports s \<noteq> []
                      then imports0 @ ''from typing import '' @ join '', '' (s_imports s) @ ''\<newline>''
                      else imports0);
          imports2 = (if s_import_lines s \<noteq> [] then imports1 @ concat (s_import_lines s)
                      else imports1);
          imports3 = (if imports2 \<noteq> [] then imports2 @ ''\<newline>'' else imports2)
      in imports3 @ concat (s_output s))"

section \<open>The pre-pass collectors\<close>

text \<open>
  Modelled from the spec: the traverser \<^verbatim>\<open>mypy.traverser.TraverserVisitor\<close>, which both
  collectors and the generator subclass and which is not among the sources.  Its methods
  visit the children of a node in document order: the body of a function, the body of a
  class, the function of a decorator, every branch of a conditional and then its else
  branch.  A method overridden without a call to \<^verbatim>\<open>super()\<close> replaces that descent,
  as the generator's own \<^verbatim>\<open>visit_class_def\<close> shows, which calls \<^verbatim>\<open>super()\<close> to
  enter the body.

  \<^verbatim>\<open>SelfTraverser\<close> overrides \<^verbatim>\<open>visit_assignment_stmt\<close>, which reads
  \<^verbatim>\<open>o.lvalues[0]\<close>; everything else is the traverser's descent.  The initialisers of
  the parameters, which the traverser may visit as assignments, have a name as target and
  add nothing.
\<close>

fun self_target :: "expr \<Rightarrow> string option" where
  "self_target (MemberExpr (NameExpr r) name) = (if r = ''self'' then Some name else None)"
| "self_target _ = None"

fun self_stmt :: "stmt \<Rightarrow> string list \<Rightarrow> error + string list"
  and self_block :: "stmt list \<Rightarrow> string list \<Rightarrow> error + string list"
  and self_bodies :: "stmt list list \<Rightarrow> string list \<Rightarrow> error + string list"
where
  "self_stmt (AssignmentStmt lvalues rvalue) results =
     (case lvalues of
        [] \<Rightarrow> Inl IndexError
      | lvalue # _ \<Rightarrow>
          (case self_target lvalue of
             Some name \<Rightarrow> Inr (results @ [name])
           | None \<Rightarrow> Inr results))"
| "self_stmt (FuncDef name args arg_kinds init body) results = self_block body results"
| "self_stmt (Decorator decorators func) results = self_stmt func results"
| "self_stmt (ClassDef name base_type_exprs defs) results = self_block defs results"
| "self_stmt (IfStmt conds body else_body) results =
     (case self_bodies body results of
        Inl e \<Rightarrow> Inl e
      | Inr results1 \<Rightarrow>
          (case else_body of
             None \<Rightarrow> Inr results1
           | Some b \<Rightarrow> self_block b results1))"
| "self_stmt (ImportAll ident) results = Inr results"
| "self_stmt PassStmt results = Inr results"
| "self_stmt (ExpressionStmt e) results = Inr results"
| "self_block [] results = Inr results"
| "self_block (st # sts) results =
     (case self_stmt st results of
        Inl e \<Rightarrow> Inl e
      | Inr results1 \<Rightarrow> self_block sts results1)"
| "self_bodies [] results = Inr results"
| "self_bodies (b # bs) results =
     (case self_block b results of
        Inl e \<Rightarrow> Inl e
      | Inr results1 \<Rightarrow> self_bodies bs results1)"

text \<open>\<^verbatim>\<open>find_self_initializers(fdef)\<close>, given the body of the function.\<close>

definition find_self_initializers :: "stmt list \<Rightarrow> error + string list" where
  "find_self_initializers body = self_block body []"

text \<open>
  Modelled from the spec: the descent of the traverser, as above.
  \<^verbatim>\<open>ClassTraverser\<close> overrides \<^verbatim>\<open>visit_class_def\<close>, which records the name and does
  not call \<^verbatim>\<open>super()\<close>, so the body of a class is not entered.
\<close>

fun classes_stmt :: "stmt \<Rightarrow> string set"
  and classes_block :: "stmt list \<Rightarrow> string set"
  and classes_bodies :: "stmt list list \<Rightarrow> string set"
where
  "classes_stmt (ClassDef name base_type_exprs defs) = {name}"
| "classes_stmt (FuncDef name args arg_kinds init body) = classes_block body"
| "classes_stmt (Decorator decorators func) = classes_stmt func"
| "classes_stmt (IfStmt conds body else_body) =
     classes_bodies body \<union> (case else_body of None \<Rightarrow> {} | Some b \<Rightarrow> classes_block b)"
| "classes_stmt (AssignmentStmt lvalues rvalue) = {}"
| "classes_stmt (ImportAll ident) = {}"
| "classes_stmt PassStmt = {}"
| "classes_stmt (ExpressionStmt e) = {}"
| "classes_block [] = {}"
| "classes_block (st # sts) = classes_stmt st \<union> classes_block sts"
| "classes_bodies [] = {}"
| "classes_bodies (b # bs) = classes_block b \<union> classes_bodies bs"

definition find_classes :: "stmt list \<Rightarrow> string set" where
  "find_classes defs = classes_block defs"

section \<open>Function signatures\<close>

text \<open>
  \<^verbatim>\<open>'-%s' % init.expr.value\<close>: the four literal classes have a \<^verbatim>\<open>value\<close>
  attribute; on any other operand the attribute access raises.
\<close>

fun value_text :: "expr \<Rightarrow> string option" where
  "value_text (IntExpr v) = Some (str_int v)"
| "value_text (StrExpr v) = Some v"
| "value_text (BytesExpr v) = Some v"
| "value_text (FloatExpr v) = Some v"
| "value_text _ = None"

text \<open>The chain of \<^verbatim>\<open>isinstance\<close> tests on the default expression, in source order.\<close>

fun render_default :: "expr \<Rightarrow> gen \<Rightarrow> error + (string \<times> gen)" where
  "render_default (IntExpr v) s = Inr (str_int v, s)"
| "render_default (StrExpr v) s = Inr ([CHR 0x27, CHR 0x27], s)"
| "render_default (BytesExpr v) s = Inr ([CHR ''b'', CHR 0x27, CHR 0x27], s)"
| "render_default (FloatExpr v) s = Inr (''0.0'', s)"
| "render_default (UnaryExpr op e) s =
     (case value_text e of
        None \<Rightarrow> Inl AttributeError
      | Some v \<Rightarrow> Inr (''-'' @ v, s))"
| "render_default (NameExpr name) s =
     (if name = ''None'' then Inr (name, s)
      else Inr (''Undefined'', add_import ''Undefined'' s))"
| "render_default e s = Inr (''Undefined'', add_import ''Undefined'' s)"

text \<open>
  One round of the loop over \<^verbatim>\<open>enumerate(zip(o.args, o.arg_kinds))\<close>: \<^verbatim>\<open>name\<close> and
  \<^verbatim>\<open>kind\<close> are the pair, \<^verbatim>\<open>ini\<close> is \<^verbatim>\<open>o.init[i]\<close>, \<^verbatim>\<open>args\<close> the list rendered so far.
\<close>

definition render_arg ::
  "string \<Rightarrow> arg_kind \<Rightarrow> expr option \<Rightarrow> string list \<Rightarrow> gen \<Rightarrow> error + (string list \<times> gen)"
where
  "render_arg name kind ini args s =
     (case ini of
        Some rvalue \<Rightarrow>
          (let args1 = (if kind = ARG_NAMED \<and> ''*'' \<notin> set args then args @ [''*''] else args)
           in case render_default rvalue s of
                Inl e \<Rightarrow> Inl e
              | Inr (txt, s1) \<Rightarrow> Inr (args1 @ [name @ ''='' @ txt], s1))
      | None \<Rightarrow>
          (if kind = ARG_STAR then Inr (args @ [''*'' @ name], s)
           else if kind = ARG_STAR2 then Inr (args @ [''**'' @ name], s)
           else Inr (args @ [name], s)))"

fun render_args ::
  "nat \<Rightarrow> (string \<times> arg_kind) list \<Rightarrow> expr option list \<Rightarrow> string list \<Rightarrow> gen
     \<Rightarrow> error + (string list \<times> gen)"
where
  "render_args i [] init args s = Inr (args, s)"
| "render_args i ((name, kind) # rest) init args s =
     (if length init \<le> i then Inl IndexError
      else
        (case render_arg name kind (init ! i) args s of
           Inl e \<Rightarrow> Inl e
         | Inr (args1, s1) \<Rightarrow> render_args (Suc i) rest init args1 s1))"

text \<open>The loop \<^verbatim>\<open>for init in self_inits: self.add_init(init)\<close>.\<close>

fun add_inits :: "string list \<Rightarrow> gen \<Rightarrow> error + gen" where
  "add_inits [] s = Inr s"
| "add_inits (x # xs) s =
     (case add_init x s of
        Inl e \<Rightarrow> Inl e
      | Inr (b, s1) \<Rightarrow> add_inits xs s1)"

definition visit_func_def ::
  "string \<Rightarrow> string list \<Rightarrow> arg_kind list \<Rightarrow> expr option list \<Rightarrow> stmt list \<Rightarrow> gen
     \<Rightarrow> error + gen"
where
  "visit_func_def name args arg_kinds init body s =
     (if is_private_name name then Inr s
      else
        (let s1 = (if s_indent s = [] \<and> s_state s \<notin> {EMPTY, FUNC} then add ''\<newline>'' s else s)
         in case find_self_initializers body of
              Inl e \<Rightarrow> Inl e
            | Inr self_inits \<Rightarrow>
                (case add_inits self_inits s1 of
                   Inl e \<Rightarrow> Inl e
                 | Inr s2 \<Rightarrow>
                     (let s3 = add (s_indent s2 @ ''def '' @ name @ ''('') s2
                      in case render_args 0 (zip args arg_kinds) init [] s3 of
                           Inl e \<Rightarrow> Inl e
                         | Inr (rendered, s4) \<Rightarrow>
                             (let s5 = add (join '', '' rendered) s4;
                                  s6 = add ''): pass\<newline>'' s5
                              in Inr (s6\<lparr>s_state := FUNC\<rparr>))))))"

section \<open>Decorators, base classes, assignments, conditionals\<close>

text \<open>The loop of \<^verbatim>\<open>visit_decorator\<close> before it hands over to the traverser.\<close>

fun emit_decorators :: "expr list \<Rightarrow> gen \<Rightarrow> gen" where
  "emit_decorators [] s = s"
| "emit_decorators (NameExpr name # ds) s =
     emit_decorators ds
       (if name \<in> {''property'', ''staticmethod'', ''classmethod''}
        then add (s_indent s @ ''@'' @ name @ ''\<newline>'') s else s)"
| "emit_decorators (MemberExpr (NameExpr owner) name # ds) s =
     emit_decorators ds
       (if name = ''setter'' then add (s_indent s @ ''@'' @ owner @ ''.setter\<newline>'') s else s)"
| "emit_decorators (d # ds) s = emit_decorators ds s"

text \<open>The loop over \<^verbatim>\<open>o.base_type_exprs\<close> that fills \<^verbatim>\<open>base_types\<close>.\<close>

fun base_types :: "string set \<Rightarrow> expr list \<Rightarrow> string list" where
  "base_types cls [] = []"
| "base_types cls (NameExpr name # bs) =
     (if name \<in> cls \<or> endswith name ''Exception'' \<or> endswith name ''Error''
      then name # base_types cls bs else base_types cls bs)"
| "base_types cls (b # bs) = base_types cls bs"

text \<open>
  The test of \<^verbatim>\<open>visit_if_stmt\<close> on \<^verbatim>\<open>o.expr[0]\<close>; \<^verbatim>\<open>and\<close> evaluates left to right,
  so \<^verbatim>\<open>operands[1]\<close> is read only when \<^verbatim>\<open>operands[0]\<close> is a name.
\<close>

fun is_main_check :: "expr \<Rightarrow> error + bool" where
  "is_main_check (ComparisonExpr operators operands) =
     (case operands of
        [] \<Rightarrow> Inl IndexError
      | NameExpr name # rest \<Rightarrow>
          (case rest of
             [] \<Rightarrow> Inl IndexError
           | StrExpr v # _ \<Rightarrow> Inr (name = ''__name__'' \<and> contains ''__main__'' v)
           | _ # _ \<Rightarrow> Inr False)
      | _ # _ \<Rightarrow> Inr False)"
| "is_main_check _ = Inr False"

text \<open>
  The loop of \<^verbatim>\<open>visit_assignment_stmt\<close> over the targets, with its two flags.
\<close>

fun assign_items :: "expr list \<Rightarrow> bool \<Rightarrow> bool \<Rightarrow> gen \<Rightarrow> error + (bool \<times> gen)" where
  "assign_items [] sep found s = Inr (found, s)"
| "assign_items (NameExpr name # items) sep found s =
     (let need = (\<not> sep \<and> s_indent s = [] \<and> s_state s \<notin> {EMPTY, VAR});
          s1 = (if need then add ''\<newline>'' s else s);
          sep1 = (if need then True else sep)
      in case add_init name s1 of
           Inl e \<Rightarrow> Inl e
         | Inr (b, s2) \<Rightarrow> assign_items items sep1 (b \<or> found) s2)"
| "assign_items (item # items) sep found s = assign_items items sep found s"

definition visit_assignment_stmt :: "expr list \<Rightarrow> gen \<Rightarrow> error + gen" where
  "visit_assignment_stmt lvalues s =
     (case lvalues of
        [] \<Rightarrow> Inl IndexError
      | lvalue # _ \<Rightarrow>
          (let items = (case lvalue of TupleExpr xs \<Rightarrow> xs | ListExpr xs \<Rightarrow> xs | _ \<Rightarrow> [lvalue])
           in case assign_items items False False s of
                Inl e \<Rightarrow> Inl e
              | Inr (found, s1) \<Rightarrow> Inr (if found then s1\<lparr>s_state := VAR\<rparr> else s1)))"

section \<open>Classes and the traversal\<close>

text \<open>
  \<^verbatim>\<open>visit_class_def\<close> up to the descent into the body.  The local \<^verbatim>\<open>sep\<close> is bound
  only on the branch that reserves the blank-line slot; \<^verbatim>\<open>n\<close> is the length of the
  buffer after the header.
\<close>

definition class_enter :: "string \<Rightarrow> expr list \<Rightarrow> gen \<Rightarrow> nat option \<times> nat \<times> gen" where
  "class_enter name base_type_exprs s =
     (let reserve = (s_indent s = [] \<and> s_state s \<noteq> EMPTY);
          sep = (if reserve then Some (length (s_output s)) else None);
          s1 = (if reserve then add ''\<newline>'' s else s);
          s2 = add (''class '' @ name) s1;
          bts = base_types (s_classes s2) base_type_exprs;
          s3 = (if bts \<noteq> [] then add (''('' @ join '', '' bts @ '')'') s2 else s2);
          s4 = add '':\<newline>'' s3;
          n = length (s_output s4);
          s5 = s4\<lparr>s_indent := s_indent s4 @ ''    '', s_vars := s_vars s4 @ [[]]\<rparr>
      in (sep, n, s5))"

text \<open>\<^verbatim>\<open>self._output[-1] = self._output[-1][:-1] + ' pass\n'\<close> and the new state.\<close>

definition rewrite_last :: "gen \<Rightarrow> error + gen" where
  "rewrite_last s =
     (if s_output s = [] then Inl IndexError
      else Inr (s\<lparr>s_output := (s_output s)[length (s_output s) - 1 :=
                                  butlast (last (s_output s)) @ '' pass\<newline>''],
                 s_state := EMPTY_CLASS\<rparr>))"

text \<open>
  \<^verbatim>\<open>visit_class_def\<close> after the descent.  Reading \<^verbatim>\<open>sep\<close> when it was never bound
  raises; so do \<^verbatim>\<open>pop\<close> on an empty stack and an assignment past the end of the buffer.
\<close>

definition class_leave :: "nat option \<Rightarrow> nat \<Rightarrow> gen \<Rightarrow> error + gen" where
  "class_leave sep n s =
     (let s1 = s\<lparr>s_indent := take (length (s_indent s) - 4) (s_indent s)\<rparr>
      in if s_vars s1 = [] then Inl IndexError
         else
           (let s2 = s1\<lparr>s_vars := butlast (s_vars s1)\<rparr>
            in if length (s_output s2) = n then
                 (if s_state s2 = EMPTY_CLASS then
                    (case sep of
                       None \<Rightarrow> Inl UnboundLocalError
                     | Some i \<Rightarrow>
                         (if i < length (s_output s2)
                          then rewrite_last (s2\<lparr>s_output := (s_output s2)[i := []]\<rparr>)
                          else Inl IndexError))
                  else rewrite_last s2)
               else Inr (s2\<lparr>s_state := CLASS\<rparr>)))"

text \<open>
  Modelled from the spec: the dispatch of \<^verbatim>\<open>accept\<close> and the descent of the traverser
  into blocks and into the branches of a conditional, as above.  A statement is dispatched
  to the method the generator overrides, or to the traverser's, which visits the children;
  function bodies are not entered, as \<^verbatim>\<open>visit_func_def\<close> does not call
  \<^verbatim>\<open>super()\<close>, and a decorated function is visited after its decorator lines.
\<close>

fun visit_stmt :: "stmt \<Rightarrow> gen \<Rightarrow> error + gen"
  and visit_block :: "stmt list \<Rightarrow> gen \<Rightarrow> error + gen"
  and visit_bodies :: "stmt list list \<Rightarrow> gen \<Rightarrow> error + gen"
where
  "visit_stmt (FuncDef name args arg_kinds init body) s =
     visit_func_def name args arg_kinds init body s"
| "visit_stmt (Decorator decorators func) s = visit_stmt func (emit_decorators decorators s)"
| "visit_stmt (ClassDef name base_type_exprs defs) s =
     (case class_enter name base_type_exprs s of
        (sep, n, s1) \<Rightarrow>
          (case visit_block defs s1 of
             Inl e \<Rightarrow> Inl e
           | Inr s2 \<Rightarrow> class_leave sep n s2))"
| "visit_stmt (AssignmentStmt lvalues rvalue) s = visit_assignment_stmt lvalues s"
| "visit_stmt (IfStmt conds body else_body) s =
     (case conds of
        [] \<Rightarrow> Inl IndexError
      | expr # _ \<Rightarrow>
          (case is_main_check expr of
             Inl e \<Rightarrow> Inl e
           | Inr True \<Rightarrow> Inr s
           | Inr False \<Rightarrow>
               (case visit_bodies body s of
                  Inl e \<Rightarrow> Inl e
                | Inr s1 \<Rightarrow>
                    (case else_body of
                       None \<Rightarrow> Inr s1
                     | Some b \<Rightarrow> visit_block b s1))))"
| "visit_stmt (ImportAll ident) s = Inr (add_import_line (''from '' @ ident @ '' import *\<newline>'') s)"
| "visit_stmt PassStmt s = Inr s"
| "visit_stmt (ExpressionStmt e) s = Inr s"
| "visit_block [] s = Inr s"
| "visit_block (st # sts) s =
     (case visit_stmt st s of
        Inl e \<Rightarrow> Inl e
      | Inr s1 \<Rightarrow> visit_block sts s1)"
| "visit_bodies [] s = Inr s"
| "visit_bodies (b # bs) s =
     (case visit_block b s of
        Inl e \<Rightarrow> Inl e
      | Inr s1 \<Rightarrow> visit_bodies bs s1)"

definition visit_mypy_file :: "stmt list \<Rightarrow> error + gen" where
  "visit_mypy_file defs =
     visit_block defs (StubGenerator_init\<lparr>s_classes := find_classes defs\<rparr>)"

text \<open>\<^verbatim>\<open>generate_stub\<close> without the file system: the text written for a parsed module.\<close>

definition generate_stub :: "stmt list \<Rightarrow> error + string" where
  "generate_stub defs =
     (case visit_mypy_file defs of
        Inl e \<Rightarrow> Inl e
      | Inr s \<Rightarrow> Inr (gen_output s))"

section \<open>Relations between generator states\<close>

text \<open>
  These relations describe how a visit may change the generator; they are used to state
  what the visitor preserves.  The innermost scope of the stack may only gain names.
\<close>

definition scope_ext :: "string list list \<Rightarrow> string list list \<Rightarrow> bool" where
  "scope_ext vs vs' \<longleftrightarrow>
     vs' = vs \<or> (vs \<noteq> [] \<and> (\<exists>ext. vs' = butlast vs @ [last vs @ ext]))"

text \<open>
  The output buffer is extended at its end, indentation and class names are restored,
  and the scope stack keeps its depth.
\<close>

definition extends :: "gen \<Rightarrow> gen \<Rightarrow> bool" where
  "extends s s' \<longleftrightarrow>
     (\<exists>ext. s_output s' = s_output s @ ext) \<and> s_indent s' = s_indent s \<and>
     s_classes s' = s_classes s \<and> scope_ext (s_vars s) (s_vars s')"

text \<open>
  What holds between the states before and after a visit that returns: when no fragment
  was appended, nothing but the recorded import lines has changed.
\<close>

definition visit_rel :: "gen \<Rightarrow> gen \<Rightarrow> bool" where
  "visit_rel s s' \<longleftrightarrow>
     extends s s' \<and>
     (length (s_output s') = length (s_output s) \<longrightarrow> s' = s\<lparr>s_import_lines := s_import_lines s'\<rparr>)"

text \<open>
  The fragments that \<^verbatim>\<open>visit_class_def\<close> appends before it descends into the body:
  the reserved blank-line slot, the class keyword and name, the base list, the colon.
\<close>

definition class_header :: "string \<Rightarrow> expr list \<Rightarrow> gen \<Rightarrow> string list" where
  "class_header name base_type_exprs s =
     (if s_indent s = [] \<and> s_state s \<noteq> EMPTY then [''\<newline>''] else [])
     @ [''class '' @ name]
     @ (if base_types (s_classes s) base_type_exprs \<noteq> []
        then [''('' @ join '', '' (base_types (s_classes s) base_type_exprs) @ '')''] else [])
     @ ['':\<newline>'']"

text \<open>
  The class declarations of a module that lie outside every class body: at the top level,
  in the body of a function, decorated or not, and in a branch of a conditional, at any
  depth.  This is stated on the syntax tree alone, to be compared with what
  \<^verbatim>\<open>find_classes\<close> collects.
\<close>

inductive declared_outside_class :: "string \<Rightarrow> stmt list \<Rightarrow> bool" where
  here: "ClassDef name base_type_exprs defs \<in> set sts \<Longrightarrow> declared_outside_class name sts"
| in_function:
    "FuncDef f args arg_kinds init body \<in> set sts \<Longrightarrow> declared_outside_class name body
       \<Longrightarrow> declared_outside_class name sts"
| in_decorated:
    "Decorator decorators func \<in> set sts \<Longrightarrow> declared_outside_class name [func]
       \<Longrightarrow> declared_outside_class name sts"
| in_branch:
    "IfStmt conds bodies else_body \<in> set sts \<Longrightarrow> b \<in> set bodies
       \<Longrightarrow> declared_outside_class name b \<Longrightarrow> declared_outside_class name sts"
| in_else:
    "IfStmt conds bodies (Some b) \<in> set sts \<Longrightarrow> declared_outside_class name b
       \<Longrightarrow> declared_outside_class name sts"

section \<open>Facts about the string operations\<close>

lemma startswith_iff: "startswith s p \<longleftrightarrow> (\<exists>rest. s = p @ rest)"
  unfolding startswith_def
  by (metis append_eq_conv_conj append_take_drop_id)

lemma endswith_iff: "endswith s p \<longleftrightarrow> (\<exists>front. s = front @ p)"
proof
  assume "endswith s p"
  then have "s = take (length s - length p) s @ p"
    unfolding endswith_def by (metis append_take_drop_id)
  then show "\<exists>front. s = front @ p" ..
next
  assume "\<exists>front. s = front @ p"
  then show "endswith s p" unfolding endswith_def by auto
qed

lemma contains_iff: "contains sub str \<longleftrightarrow> (\<exists>pre post. str = pre @ sub @ post)"
proof (induction str)
  case Nil
  then show ?case by auto
next
  case (Cons c cs)
  show ?case
  proof
    assume "contains sub (c # cs)"
    then consider "startswith (c # cs) sub" | "contains sub cs" by auto
    then show "\<exists>pre post. c # cs = pre @ sub @ post"
    proof cases
      case 1
      then obtain rest where "c # cs = sub @ rest" by (auto simp: startswith_iff)
      then have "c # cs = [] @ sub @ rest" by simp
      then show ?thesis by blast
    next
      case 2
      then obtain pre post where "cs = pre @ sub @ post" using Cons.IH by auto
      then have "c # cs = (c # pre) @ sub @ post" by simp
      then show ?thesis by blast
    qed
  next
    assume "\<exists>pre post. c # cs = pre @ sub @ post"
    then obtain pre post where eq: "c # cs = pre @ sub @ post" by auto
    show "contains sub (c # cs)"
    proof (cases pre)
      case Nil
      then have "startswith (c # cs) sub" using eq by (auto simp: startswith_iff)
      then show ?thesis by simp
    next
      case (Cons a pre')
      then have "cs = pre' @ sub @ post" using eq by simp
      then have "contains sub cs" using Cons.IH by blast
      then show ?thesis by simp
    qed
  qed
qed

section \<open>The name classifier\<close>



lemma is_private_name_examples:
  "is_private_name ''__all__''" "is_private_name ''__author__''" "is_private_name ''__version__''"
  "\<not> is_private_name ''__init__''" "is_private_name ''_''" "\<not> is_private_name ''__''"
  "\<not> is_private_name ''public''" "is_private_name ''__mangled''"
  by (simp_all add: is_private_name_def startswith_def endswith_def)

section \<open>One round of the parameter loop\<close>

text \<open>
  What one round of the loop appends: a bare \<^verbatim>\<open>*\<close> entry exactly when the parameter is
  keyword-only, has a default, and no \<^verbatim>\<open>*\<close> entry is in the list rendered so far; then
  the entry of the parameter.
\<close>

lemma render_arg_keyword_only:
  "render_arg name ARG_NAMED None args s = Inr (args @ [name], s)
   \<and> render_arg name ARG_POS None args s = Inr (args @ [name], s)
   \<and> (render_arg name kind ini args s = Inr (args1, s1) \<longrightarrow>
         (\<exists>a. args1 =
            args @ (if kind = ARG_NAMED \<and> ini \<noteq> None \<and> ''*'' \<notin> set args then [''*''] else [])
                 @ [a]))"
  by (auto simp: render_arg_def split: option.splits sum.splits if_splits)

lemma render_arg_keyword_only_example:
  "render_arg ''key'' ARG_NAMED (Some (IntExpr 1)) [''a''] StubGenerator_init
     = Inr ([''a'', ''*'', ''key=1''], StubGenerator_init)
   \<and> (\<exists>a. [''a'', ''*'', ''key=1''] = [''a''] @ [''*''] @ [a])"
  using render_arg_keyword_only [of "''key''" "[''a'']" StubGenerator_init ARG_NAMED "Some (IntExpr 1)"
      "[''a'', ''*'', ''key=1'']" StubGenerator_init]
  by (simp add: render_arg_def str_int_def)

section \<open>Defaults of unknown shape\<close>

lemma add_import_set: "set (s_imports (add_import name s)) = insert name (set (s_imports s))"
  by (auto simp: add_import_def)

lemma add_import_distinct: "distinct (s_imports s) \<Longrightarrow> distinct (s_imports (add_import name s))"
  by (auto simp: add_import_def)

lemma render_default_unknown:
  assumes "\<forall>v. e \<noteq> IntExpr v" "\<forall>v. e \<noteq> StrExpr v" "\<forall>v. e \<noteq> BytesExpr v"
    "\<forall>v. e \<noteq> FloatExpr v" "\<forall>op x. e \<noteq> UnaryExpr op x" "e \<noteq> NameExpr ''None''"
  shows "render_default e s = Inr (''Undefined'', add_import ''Undefined'' s)"
  using assms by (cases e) auto

text \<open>
  One round of the loop on a default that is none of the literal shapes, not a unary
  expression and not the name \<^verbatim>\<open>None\<close>: the entry is \<^verbatim>\<open>name=Undefined\<close> and the one
  helper symbol registered is \<^verbatim>\<open>Undefined\<close>.
\<close>

lemma render_arg_unknown_default:
  assumes "\<forall>v. e \<noteq> IntExpr v" "\<forall>v. e \<noteq> StrExpr v" "\<forall>v. e \<noteq> BytesExpr v"
    "\<forall>v. e \<noteq> FloatExpr v" "\<forall>op x. e \<noteq> UnaryExpr op x" "e \<noteq> NameExpr ''None''"
  shows "render_arg name kind (Some e) args s =
           Inr ((if kind = ARG_NAMED \<and> ''*'' \<notin> set args then args @ [''*''] else args)
                  @ [name @ ''=Undefined''],
                add_import ''Undefined'' s)
         \<and> set (s_imports (add_import ''Undefined'' s)) = insert ''Undefined'' (set (s_imports s))
         \<and> (distinct (s_imports s) \<longrightarrow> distinct (s_imports (add_import ''Undefined'' s)))"
  using render_default_unknown [OF assms, of s]
  by (simp add: render_arg_def add_import_set add_import_distinct)

lemma render_arg_unknown_default_example:
  "render_arg ''x'' ARG_POS (Some (CallExpr (NameExpr ''some_call'') [])) [] StubGenerator_init =
     Inr ([''x=Undefined''], StubGenerator_init\<lparr>s_imports := [''Undefined'']\<rparr>)
   \<and> set (s_imports (add_import ''Undefined'' StubGenerator_init)) = {''Undefined''}
   \<and> distinct (s_imports (add_import ''Undefined'' StubGenerator_init))"
  using render_arg_unknown_default [of "CallExpr (NameExpr ''some_call'') []" "''x''" ARG_POS "[]"
      StubGenerator_init]
  by (simp add: StubGenerator_init_def add_import_def)

text \<open>
  The module \<^verbatim>\<open>def f(x=some_call()): pass\<close> imports \<^verbatim>\<open>Undefined\<close> alone.
\<close>

theorem unknown_default_counterexample:
  "visit_mypy_file
     [FuncDef ''f'' [''x''] [ARG_POS] [Some (CallExpr (NameExpr ''some_call'') [])] []] =
   Inr \<lparr>s_output = [''def f('', ''x=Undefined'', ''): pass\<newline>''], s_import_lines = [],
        s_imports = [''Undefined''], s_indent = [], s_vars = [[]], s_state = FUNC,
        s_classes = {}\<rparr>
   \<and> generate_stub
     [FuncDef ''f'' [''x''] [ARG_POS] [Some (CallExpr (NameExpr ''some_call'') [])] []] =
   Inr ''from typing import Undefined\<newline>\<newline>def f(x=Undefined): pass\<newline>''"
  by (simp add: generate_stub_def visit_mypy_file_def StubGenerator_init_def find_classes_def
      visit_func_def_def is_private_name_def startswith_def endswith_def
      find_self_initializers_def add_def render_arg_def add_import_def gen_output_def)

section \<open>The entry-point conditional\<close>

lemma is_main_check_True_iff:
  "is_main_check expr = Inr True \<longleftrightarrow>
     (\<exists>operators v more. expr = ComparisonExpr operators (NameExpr ''__name__'' # StrExpr v # more)
        \<and> contains ''__main__'' v)"
  by (cases expr) (auto split: list.splits expr.splits)

text \<open>
  What the test of \<^verbatim>\<open>visit_if_stmt\<close> accepts.  The conditional is skipped, with no
  change of the generator, exactly when its first condition is a comparison, whatever its
  operators, whose first operand is the name \<^verbatim>\<open>__name__\<close> and whose second operand is a
  string literal containing \<^verbatim>\<open>__main__\<close>.  When the test answers no, the traverser
  visits every branch and then the else branch.
\<close>

lemma main_guard_skipped:
  "(is_main_check expr = Inr True \<longleftrightarrow>
      (\<exists>operators pre post more.
         expr = ComparisonExpr operators
                  (NameExpr ''__name__'' # StrExpr (pre @ ''__main__'' @ post) # more)))
   \<and> (is_main_check expr = Inr True \<longrightarrow>
         visit_stmt (IfStmt (expr # elifs) body else_body) s = Inr s)
   \<and> (is_main_check expr = Inr False \<longrightarrow>
         visit_stmt (IfStmt (expr # elifs) body else_body) s =
           (case visit_bodies body s of
              Inl e \<Rightarrow> Inl e
            | Inr s1 \<Rightarrow> (case else_body of None \<Rightarrow> Inr s1 | Some b \<Rightarrow> visit_block b s1)))"
proof (intro conjI impI)
  show "is_main_check expr = Inr True \<longleftrightarrow>
      (\<exists>operators pre post more.
         expr = ComparisonExpr operators
                  (NameExpr ''__name__'' # StrExpr (pre @ ''__main__'' @ post) # more))"
    unfolding is_main_check_True_iff contains_iff by blast
next
  assume "is_main_check expr = Inr True"
  then show "visit_stmt (IfStmt (expr # elifs) body else_body) s = Inr s" by simp
next
  assume "is_main_check expr = Inr False"
  then show "visit_stmt (IfStmt (expr # elifs) body else_body) s =
           (case visit_bodies body s of
              Inl e \<Rightarrow> Inl e
            | Inr s1 \<Rightarrow> (case else_body of None \<Rightarrow> Inr s1 | Some b \<Rightarrow> visit_block b s1))"
    by simp
qed

lemma main_guard_skipped_example:
  "is_main_check (ComparisonExpr [''==''] [NameExpr ''__name__'', StrExpr ''__main__'']) = Inr True
   \<and> visit_stmt (IfStmt [ComparisonExpr [''==''] [NameExpr ''__name__'', StrExpr ''__main__'']]
        [[FuncDef ''main'' [] [] [] []]] None) StubGenerator_init = Inr StubGenerator_init
   \<and> is_main_check (NameExpr ''DEBUG'') = Inr False
   \<and> visit_stmt (IfStmt [NameExpr ''DEBUG''] [[PassStmt]] None) StubGenerator_init
       = Inr StubGenerator_init"
  using main_guard_skipped [of "ComparisonExpr [''==''] [NameExpr ''__name__'', StrExpr ''__main__'']"
      "[]" "[[FuncDef ''main'' [] [] [] []]]" None StubGenerator_init]
    main_guard_skipped [of "NameExpr ''DEBUG''" "[]" "[[PassStmt]]" None StubGenerator_init]
  by (simp add: startswith_def)

text \<open>
  Claim C4.  \<^verbatim>\<open>visit_if_stmt\<close> is to skip a conditional exactly when its condition is
  the equality comparison of the name \<^verbatim>\<open>__name__\<close> with a string literal containing
  \<^verbatim>\<open>__main__\<close>, as the comment in the source says, and to traverse every other
  conditional.  The operator of the comparison is never read: a conditional on
  \<^verbatim>\<open>__name__ != '__main__'\<close> is skipped too, and the function in its body, which is
  emitted when it stands alone, leaves no output.
\<close>

theorem main_guard_other_operator:
  "generate_stub
     [IfStmt [ComparisonExpr [''!=''] [NameExpr ''__name__'', StrExpr ''__main__'']]
        [[FuncDef ''f'' [] [] [] []]] None] = Inr []
   \<and> generate_stub [FuncDef ''f'' [] [] [] []] = Inr ''def f(): pass\<newline>''"
  by (simp add: generate_stub_def visit_mypy_file_def StubGenerator_init_def find_classes_def
      visit_func_def_def is_private_name_def startswith_def endswith_def
      find_self_initializers_def add_def render_arg_def add_import_def gen_output_def)


section \<open>What a visit preserves\<close>

lemma scope_ext_refl: "scope_ext vs vs"
  by (simp add: scope_ext_def)

lemma scope_ext_trans: "scope_ext a b \<Longrightarrow> scope_ext b c \<Longrightarrow> scope_ext a c"
  unfolding scope_ext_def by auto

lemma extends_refl: "extends s s"
  by (simp add: extends_def scope_ext_refl)

lemma extends_trans: "extends a b \<Longrightarrow> extends b c \<Longrightarrow> extends a c"
  unfolding extends_def using scope_ext_trans by auto

lemma extends_length: "extends s s' \<Longrightarrow> length (s_output s) \<le> length (s_output s')"
  unfolding extends_def by auto

lemma extends_add: "extends s (add x s)"
  by (simp add: extends_def add_def scope_ext_refl)

lemma extends_add_import: "extends s (add_import x s)"
  by (simp add: extends_def add_import_def scope_ext_refl)

lemma visit_rel_refl: "visit_rel s s"
  by (simp add: visit_rel_def extends_refl)

lemma visit_rel_trans:
  assumes "visit_rel a b" "visit_rel b c"
  shows "visit_rel a c"
proof -
  have e: "extends a c" using assms extends_trans unfolding visit_rel_def by blast
  have la: "length (s_output a) \<le> length (s_output b)"
    and lb: "length (s_output b) \<le> length (s_output c)"
    using assms extends_length unfolding visit_rel_def by blast+
  have "c = a\<lparr>s_import_lines := s_import_lines c\<rparr>"
    if eq: "length (s_output c) = length (s_output a)"
  proof -
    from eq la lb have 1: "length (s_output b) = length (s_output a)"
      and 2: "length (s_output c) = length (s_output b)" by auto
    from 1 assms(1) have b: "b = a\<lparr>s_import_lines := s_import_lines b\<rparr>"
      unfolding visit_rel_def by blast
    from 2 assms(2) have c: "c = b\<lparr>s_import_lines := s_import_lines c\<rparr>"
      unfolding visit_rel_def by blast
    show ?thesis by (subst c, subst b) simp
  qed
  with e show ?thesis unfolding visit_rel_def by blast
qed

lemma visit_relI:
  "extends s s' \<Longrightarrow> s' = s \<or> length (s_output s) < length (s_output s') \<Longrightarrow> visit_rel s s'"
  unfolding visit_rel_def by auto

lemma render_default_frame:
  "render_default e s = Inr (t, s') \<Longrightarrow> s' = s\<lparr>s_imports := s_imports s'\<rparr>"
  by (cases e) (auto simp: add_import_def split: option.splits if_splits)

lemma render_arg_frame:
  "render_arg name kind ini args s = Inr (r, s') \<Longrightarrow> s' = s\<lparr>s_imports := s_imports s'\<rparr>"
  unfolding render_arg_def
  by (auto split: option.splits sum.splits if_splits dest: render_default_frame)

lemma render_args_frame:
  "render_args i params init args s = Inr (r, s') \<Longrightarrow> s' = s\<lparr>s_imports := s_imports s'\<rparr>"
proof (induction i params init args s rule: render_args.induct)
  case (1 i init args s)
  then show ?case by simp
next
  case (2 i name kind rest init args s)
  from "2.prems" obtain args1 s1 where
    a: "render_arg name kind (init ! i) args s = Inr (args1, s1)"
    and b: "render_args (Suc i) rest init args1 s1 = Inr (r, s')"
    and c: "\<not> length init \<le> i"
    by (auto split: if_splits sum.splits)
  from a have 1: "s1 = s\<lparr>s_imports := s_imports s1\<rparr>" by (rule render_arg_frame)
  from "2.IH" [OF c a refl b] have 2: "s' = s1\<lparr>s_imports := s_imports s'\<rparr>" .
  show ?case by (subst 2, subst 1) simp
qed

lemma add_init_frame:
  assumes "add_init x s = Inr (b, s')"
  shows "extends s s'" "s_state s' = s_state s" "s_import_lines s' = s_import_lines s"
    "\<not> b \<Longrightarrow> s' = s" "b \<Longrightarrow> length (s_output s') = Suc (length (s_output s))"
    "b \<Longrightarrow> x \<in> set (last (s_vars s'))" "s_vars s' \<noteq> []"
  using assms
  by (auto simp: add_init_def extends_def scope_ext_def add_def add_import_def Let_def
      split: if_splits)

lemma add_inits_frame:
  "add_inits xs s = Inr s' \<Longrightarrow>
     extends s s' \<and> s_state s' = s_state s \<and> s_import_lines s' = s_import_lines s"
proof (induction xs arbitrary: s)
  case Nil
  then show ?case by (simp add: extends_refl)
next
  case (Cons x xs)
  from Cons.prems obtain b s1 where a: "add_init x s = Inr (b, s1)"
    and r: "add_inits xs s1 = Inr s'"
    by (auto split: sum.splits)
  from add_init_frame(1-3) [OF a] Cons.IH [OF r] show ?case
    using extends_trans by auto
qed


lemma visit_func_def_frame:
  assumes "visit_func_def name args arg_kinds init body s = Inr s'"
  shows "extends s s'" "s' = s \<or> length (s_output s) < length (s_output s')"
    "s_import_lines s' = s_import_lines s"
    "\<not> is_private_name name \<Longrightarrow> s_state s' = FUNC"
proof -
  show "\<not> is_private_name name \<Longrightarrow> s_state s' = FUNC"
    using assms unfolding visit_func_def_def
    by (auto simp: Let_def split: sum.splits if_splits)
  show "extends s s' " "s' = s \<or> length (s_output s) < length (s_output s')"
    "s_import_lines s' = s_import_lines s"
  proof -
    consider (priv) "is_private_name name" | (pub) "\<not> is_private_name name" by blast
    then have "extends s s' \<and> (s' = s \<or> length (s_output s) < length (s_output s'))
       \<and> s_import_lines s' = s_import_lines s"
    proof cases
      case priv
      with assms show ?thesis by (simp add: visit_func_def_def extends_refl)
    next
      case pub
      define s1 where "s1 = (if s_indent s = [] \<and> s_state s \<notin> {EMPTY, FUNC} then add ''\<newline>'' s else s)"
      from assms pub obtain inits s2 rendered s4 where
        ai: "add_inits inits s1 = Inr s2"
        and ra: "render_args 0 (zip args arg_kinds) init []
                   (add (s_indent s2 @ ''def '' @ name @ ''('') s2) = Inr (rendered, s4)"
        and fin: "s' = (add ''): pass\<newline>'' (add (join '', '' rendered) s4))\<lparr>s_state := FUNC\<rparr>"
        unfolding visit_func_def_def s1_def
        by (auto simp: Let_def split: sum.splits if_splits)
      have e1: "extends s s1" "s_import_lines s1 = s_import_lines s"
        by (auto simp: s1_def extends_def scope_ext_refl add_def)
      from add_inits_frame [OF ai] have e2: "extends s1 s2" "s_import_lines s2 = s_import_lines s1"
        by auto
      let ?s3 = "add (s_indent s2 @ ''def '' @ name @ ''('') s2"
      from render_args_frame [OF ra] have s4: "s4 = ?s3\<lparr>s_imports := s_imports s4\<rparr>" .
      have e3: "extends s2 s'" "length (s_output s2) < length (s_output s')"
        "s_import_lines s' = s_import_lines s2"
        unfolding fin by (subst s4, simp add: extends_def add_def scope_ext_refl)+
      from e1 e2 e3 have "extends s s'" using extends_trans by blast
      moreover have "length (s_output s) < length (s_output s')"
        using extends_length [OF e1(1)] extends_length [OF e2(1)] e3(2) by linarith
      ultimately show ?thesis using e1 e2 e3 by simp
    qed
    then show "extends s s' " "s' = s \<or> length (s_output s) < length (s_output s')"
      "s_import_lines s' = s_import_lines s" by auto
  qed
qed

lemma assign_items_frame:
  "assign_items items sep found s = Inr (f, s') \<Longrightarrow>
     extends s s' \<and> s_state s' = s_state s \<and>
     ((s' = s \<and> f = found) \<or> length (s_output s) < length (s_output s'))"
proof (induction items sep found s rule: assign_items.induct)
  case (1 sep found s)
  then show ?case by (simp add: extends_refl)
next
  case (2 name items sep found s)
  define need where "need = (\<not> sep \<and> s_indent s = [] \<and> s_state s \<notin> {EMPTY, VAR})"
  define s1 where "s1 = (if need then add ''\<newline>'' s else s)"
  define sep1 where "sep1 = (if need then True else sep)"
  from "2.prems" obtain b s2 where a: "add_init name s1 = Inr (b, s2)"
    and r: "assign_items items sep1 (b \<or> found) s2 = Inr (f, s')"
    by (auto simp: Let_def need_def s1_def sep1_def split: sum.splits)
  have e1: "extends s s1" "s_state s1 = s_state s" "s1 = s \<or> length (s_output s) < length (s_output s1)"
    by (auto simp: s1_def extends_def scope_ext_refl add_def)
  note e2 = add_init_frame [OF a]
  from "2.IH" [OF need_def s1_def sep1_def a refl r]
  have e3: "extends s2 s'" "s_state s' = s_state s2"
    "(s' = s2 \<and> f = (b \<or> found)) \<or> length (s_output s2) < length (s_output s')" by auto
  have ext: "extends s s'" using e1(1) e2(1) e3(1) extends_trans by blast
  have st: "s_state s' = s_state s" using e1(2) e2(2) e3(2) by simp
  have l1: "length (s_output s) \<le> length (s_output s1)"
    and l2: "length (s_output s1) \<le> length (s_output s2)"
    and l3: "length (s_output s2) \<le> length (s_output s')"
    using e1(1) e2(1) e3(1) extends_length by blast+
  have "(s' = s \<and> f = found) \<or> length (s_output s) < length (s_output s')"
  proof (cases "length (s_output s) < length (s_output s')")
    case True
    then show ?thesis by simp
  next
    case False
    with l1 l2 l3 have q: "length (s_output s1) = length (s_output s)"
      "length (s_output s2) = length (s_output s1)" "length (s_output s') = length (s_output s2)"
      by auto
    from q(1) e1(3) have "s1 = s" by auto
    moreover from q(2) e2(5) have nb: "\<not> b" by auto
    with e2(4) have "s2 = s1" by simp
    moreover from q(3) e3(3) have "s' = s2 \<and> f = (b \<or> found)" by auto
    ultimately show ?thesis using nb by simp
  qed
  with ext st show ?case by simp
qed simp_all


lemma visit_assignment_stmt_frame:
  assumes "visit_assignment_stmt lvalues s = Inr s'"
  shows "extends s s'" "s' = s \<or> length (s_output s) < length (s_output s')"
proof -
  from assms obtain items f s1 where
    a: "assign_items items False False s = Inr (f, s1)"
    and fin: "s' = (if f then s1\<lparr>s_state := VAR\<rparr> else s1)"
    unfolding visit_assignment_stmt_def
    by (auto simp: Let_def split: list.splits sum.splits)
  from assign_items_frame [OF a]
  have e: "extends s s1" and d: "(s1 = s \<and> \<not> f) \<or> length (s_output s) < length (s_output s1)"
    by auto
  from e show "extends s s'" unfolding fin extends_def by auto
  from d show "s' = s \<or> length (s_output s) < length (s_output s')"
    unfolding fin by auto
qed

lemma step_compose:
  assumes "extends a b" "b = a \<or> length (s_output a) < length (s_output b)"
    "extends b c" "c = b \<or> length (s_output b) < length (s_output c)"
  shows "extends a c \<and> (c = a \<or> length (s_output a) < length (s_output c))"
proof
  show "extends a c" using assms(1,3) by (rule extends_trans)
  show "c = a \<or> length (s_output a) < length (s_output c)"
    using assms(2,4) by auto
qed

lemma emit_decorators_frame:
  "extends s (emit_decorators ds s) \<and>
   (emit_decorators ds s = s \<or> length (s_output s) < length (s_output (emit_decorators ds s)))"
proof (induction ds s rule: emit_decorators.induct)
  case (1 s)
  then show ?case by (simp add: extends_refl)
next
  case (2 name ds s)
  let ?s1 = "if name \<in> {''property'', ''staticmethod'', ''classmethod''}
        then add (s_indent s @ ''@'' @ name @ ''\<newline>'') s else s"
  have a: "extends s ?s1" "?s1 = s \<or> length (s_output s) < length (s_output ?s1)"
    by (auto simp: extends_def scope_ext_refl add_def)
  from 2 have b: "extends ?s1 (emit_decorators ds ?s1)"
    "emit_decorators ds ?s1 = ?s1 \<or> length (s_output ?s1) < length (s_output (emit_decorators ds ?s1))"
    by auto
  have c: "emit_decorators (NameExpr name # ds) s = emit_decorators ds ?s1" by simp
  show ?case unfolding c by (rule step_compose [OF a(1) a(2) b(1) b(2)])
next
  case (3 owner name ds s)
  let ?s1 = "if name = ''setter'' then add (s_indent s @ ''@'' @ owner @ ''.setter\<newline>'') s else s"
  have a: "extends s ?s1" "?s1 = s \<or> length (s_output s) < length (s_output ?s1)"
    by (auto simp: extends_def scope_ext_refl add_def)
  from 3 have b: "extends ?s1 (emit_decorators ds ?s1)"
    "emit_decorators ds ?s1 = ?s1 \<or> length (s_output ?s1) < length (s_output (emit_decorators ds ?s1))"
    by auto
  have c: "emit_decorators (MemberExpr (NameExpr owner) name # ds) s = emit_decorators ds ?s1"
    by simp
  show ?case unfolding c by (rule step_compose [OF a(1) a(2) b(1) b(2)])
qed simp_all

lemma class_enter_eq:
  "class_enter name bases s =
     (if s_indent s = [] \<and> s_state s \<noteq> EMPTY then Some (length (s_output s)) else None,
      length (s_output s) + length (class_header name bases s),
      s\<lparr>s_output := s_output s @ class_header name bases s,
        s_indent := s_indent s @ ''    '', s_vars := s_vars s @ [[]]\<rparr>)"
  by (cases "s_indent s = [] \<and> s_state s \<noteq> EMPTY";
      cases "base_types (s_classes s) bases = []")
    (simp_all add: class_enter_def class_header_def add_def Let_def)

lemma class_header_nonempty: "class_header name bases s \<noteq> []"
  by (simp add: class_header_def)

lemma rewrite_last_facts:
  assumes "rewrite_last s = Inr s'"
  shows "s_output s' = (s_output s)[length (s_output s) - 1 := butlast (last (s_output s)) @ '' pass\<newline>'']"
    "s_state s' = EMPTY_CLASS" "s_indent s' = s_indent s" "s_vars s' = s_vars s"
    "s_classes s' = s_classes s" "s_imports s' = s_imports s"
    "s_import_lines s' = s_import_lines s"
  using assms unfolding rewrite_last_def by (auto split: if_splits)

lemma update_last_suffix:
  "ext \<noteq> [] \<Longrightarrow> (out @ ext)[length (out @ ext) - 1 := v] = out @ ext[length ext - 1 := v]"
  by (cases ext) (simp_all add: list_update_append)

lemma update_at_suffix: "(out @ ext)[length out := v] = out @ ext[0 := v]"
  by (simp add: list_update_append)


lemma class_leave_cases:
  assumes "class_leave sep n s2 = Inr s'"
  shows "s' = s2\<lparr>s_indent := take (length (s_indent s2) - 4) (s_indent s2),
                 s_vars := butlast (s_vars s2), s_state := CLASS\<rparr>
       \<or> rewrite_last (s2\<lparr>s_indent := take (length (s_indent s2) - 4) (s_indent s2),
                 s_vars := butlast (s_vars s2)\<rparr>) = Inr s'
       \<or> (\<exists>i. sep = Some i \<and>
            rewrite_last (s2\<lparr>s_indent := take (length (s_indent s2) - 4) (s_indent s2),
                 s_vars := butlast (s_vars s2),
                 s_output := (s_output s2)[i := []]\<rparr>) = Inr s')"
proof (cases "s_vars s2 = []")
  case True
  with assms show ?thesis by (simp add: class_leave_def)
next
  case nonempty: False
  show ?thesis
  proof (cases "length (s_output s2) = n")
    case False
    with assms nonempty show ?thesis by (auto simp: class_leave_def Let_def)
  next
    case len: True
    show ?thesis
    proof (cases "s_state s2 = EMPTY_CLASS")
      case False
      with assms nonempty len show ?thesis by (simp add: class_leave_def Let_def)
    next
      case True
      with assms nonempty len show ?thesis
        by (cases sep) (simp_all add: class_leave_def Let_def split: if_splits)
    qed
  qed
qed

lemma class_leave_frame:
  assumes lv: "class_leave sep n s2 = Inr s'"
    and o2: "s_output s2 = out @ ext" "ext \<noteq> []"
    and sep: "sep = None \<or> sep = Some (length out)"
  shows "\<exists>ext'. s_output s' = out @ ext' \<and> length ext' = length ext"
    "s_indent s' = take (length (s_indent s2) - 4) (s_indent s2)"
    "s_vars s' = butlast (s_vars s2)" "s_classes s' = s_classes s2"
    "s_imports s' = s_imports s2" "s_import_lines s' = s_import_lines s2"
    "s_state s' = CLASS \<or> s_state s' = EMPTY_CLASS"
proof -
  define s3 where "s3 = s2\<lparr>s_indent := take (length (s_indent s2) - 4) (s_indent s2),
                            s_vars := butlast (s_vars s2)\<rparr>"
  have s3: "s_output s3 = out @ ext" "s_indent s3 = take (length (s_indent s2) - 4) (s_indent s2)"
    "s_vars s3 = butlast (s_vars s2)" "s_classes s3 = s_classes s2"
    "s_imports s3 = s_imports s2" "s_import_lines s3 = s_import_lines s2"
    by (simp_all add: s3_def o2)
  let ?s4 = "s3\<lparr>s_output := (s_output s3)[length out := []]\<rparr>"
  from class_leave_cases [OF lv] sep
  consider (cls) "s' = s3\<lparr>s_state := CLASS\<rparr>"
    | (plain) "rewrite_last s3 = Inr s'"
    | (retract) "rewrite_last ?s4 = Inr s'"
    unfolding s3_def by fastforce
  then have "(\<exists>ext'. s_output s' = out @ ext' \<and> length ext' = length ext)
    \<and> s_indent s' = s_indent s3 \<and> s_vars s' = s_vars s3 \<and> s_classes s' = s_classes s3
    \<and> s_imports s' = s_imports s3 \<and> s_import_lines s' = s_import_lines s3
    \<and> (s_state s' = CLASS \<or> s_state s' = EMPTY_CLASS)"
  proof cases
    case cls
    then show ?thesis using s3(1) by simp
  next
    case plain
    note f = rewrite_last_facts [OF plain]
    have "s_output s' = out @ ext[length ext - 1 := butlast (last (s_output s3)) @ '' pass\<newline>'']"
      unfolding f(1) unfolding s3(1) using o2(2) by (rule update_last_suffix)
    then have "\<exists>ext'. s_output s' = out @ ext' \<and> length ext' = length ext" by simp
    then show ?thesis using f by simp
  next
    case retract
    note f = rewrite_last_facts [OF retract]
    have o4: "s_output ?s4 = out @ ext[0 := []]" by (simp add: s3(1) update_at_suffix)
    have ne: "ext[0 := []] \<noteq> []" using o2(2) by simp
    have "s_output s' = out @ (ext[0 := []])[length (ext[0 := []]) - 1 :=
             butlast (last (s_output ?s4)) @ '' pass\<newline>'']"
      unfolding f(1) unfolding o4 using ne by (rule update_last_suffix)
    then have "\<exists>ext'. s_output s' = out @ ext' \<and> length ext' = length ext" by simp
    then show ?thesis using f by simp
  qed
  then show "\<exists>ext'. s_output s' = out @ ext' \<and> length ext' = length ext"
    "s_indent s' = take (length (s_indent s2) - 4) (s_indent s2)"
    "s_vars s' = butlast (s_vars s2)" "s_classes s' = s_classes s2"
    "s_imports s' = s_imports s2" "s_import_lines s' = s_import_lines s2"
    "s_state s' = CLASS \<or> s_state s' = EMPTY_CLASS"
    using s3 by simp_all
qed

lemma class_visit_frame:
  assumes en: "class_enter name bases s = (sep, n, s1)"
    and body: "visit_rel s1 s2"
    and lv: "class_leave sep n s2 = Inr s'"
  shows "extends s s'" "length (s_output s) < length (s_output s')"
    "s_state s' = CLASS \<or> s_state s' = EMPTY_CLASS"
proof -
  let ?hdr = "class_header name bases s"
  from en have sep: "sep = None \<or> sep = Some (length (s_output s))"
    and s1: "s1 = s\<lparr>s_output := s_output s @ ?hdr,
        s_indent := s_indent s @ ''    '', s_vars := s_vars s @ [[]]\<rparr>"
    unfolding class_enter_eq by (auto split: if_splits)
  from body have ex: "extends s1 s2" unfolding visit_rel_def by simp
  then obtain e where o2: "s_output s2 = s_output s @ (?hdr @ e)"
    unfolding extends_def s1 by auto
  have ne: "?hdr @ e \<noteq> []" using class_header_nonempty by simp
  from ex have i2: "s_indent s2 = s_indent s @ ''    ''" and c2: "s_classes s2 = s_classes s"
    unfolding extends_def s1 by simp_all
  from ex obtain top where v2: "s_vars s2 = s_vars s @ [top]"
    unfolding extends_def scope_ext_def s1 by auto
  note f = class_leave_frame [OF lv o2 ne sep]
  from f(1) obtain ext' where o': "s_output s' = s_output s @ ext'"
    and l': "length ext' = length (?hdr @ e)" by blast
  from l' ne have "ext' \<noteq> []" by auto
  then show "length (s_output s) < length (s_output s')" unfolding o' by simp
  show "s_state s' = CLASS \<or> s_state s' = EMPTY_CLASS" by (rule f(7))
  show "extends s s'"
    unfolding extends_def using o' f(2,3,4) i2 c2 v2 by (simp add: scope_ext_refl)
qed

lemma visit_frame:
  "visit_stmt st s = Inr s' \<Longrightarrow> visit_rel s s'"
  "visit_block sts s = Inr s' \<Longrightarrow> visit_rel s s'"
  "visit_bodies bs s = Inr s' \<Longrightarrow> visit_rel s s'"
proof (induction st s and sts s and bs s arbitrary: s' and s' and s'
    rule: visit_stmt_visit_block_visit_bodies.induct)
  case (1 name args arg_kinds init body s)
  then have v: "visit_func_def name args arg_kinds init body s = Inr s'" by simp
  show ?case by (rule visit_relI [OF visit_func_def_frame(1,2) [OF v]])
next
  case (2 decorators func s)
  have a: "visit_rel s (emit_decorators decorators s)"
    using emit_decorators_frame [of s decorators] by (simp add: visit_relI)
  from 2 have "visit_rel (emit_decorators decorators s) s'" by simp
  with a show ?case by (rule visit_rel_trans)
next
  case (3 name base_type_exprs defs s)
  obtain sep n s1 where en: "class_enter name base_type_exprs s = (sep, n, s1)"
    by (cases "class_enter name base_type_exprs s") auto
  with "3.prems" obtain s2 where b: "visit_block defs s1 = Inr s2"
    and lv: "class_leave sep n s2 = Inr s'"
    by (auto split: sum.splits)
  from "3.IH" [OF en [symmetric] refl b] have r: "visit_rel s1 s2" .
  show ?case by (rule visit_relI [OF class_visit_frame(1) [OF en r lv]])
      (simp add: class_visit_frame(2) [OF en r lv])
next
  case (4 lvalues rvalue s)
  then have v: "visit_assignment_stmt lvalues s = Inr s'" by simp
  show ?case by (rule visit_relI [OF visit_assignment_stmt_frame [OF v]])
next
  case (5 conds body else_body s)
  from "5.prems" obtain expr rest where c: "conds = expr # rest"
    by (cases conds) auto
  from "5.prems" c obtain b where m: "is_main_check expr = Inr b"
    by (cases "is_main_check expr") auto
  show ?case
  proof (cases b)
    case True
    with "5.prems" c m have "s' = s" by simp
    then show ?thesis by (simp add: visit_rel_refl)
  next
    case False
    then have bf: "b = False" by simp
    from False "5.prems" c m obtain s1 where b1: "visit_bodies body s = Inr s1"
      and e: "(case else_body of None \<Rightarrow> Inr s1 | Some blk \<Rightarrow> visit_block blk s1) = Inr s'"
      by (auto split: sum.splits)
    from "5.IH"(1) [OF c m bf b1] have r1: "visit_rel s s1" .
    show ?thesis
    proof (cases else_body)
      case None
      with e r1 show ?thesis by simp
    next
      case (Some blk)
      with e have "visit_block blk s1 = Inr s'" by simp
      from "5.IH"(2) [OF c m bf b1 Some this] have "visit_rel s1 s'" .
      with r1 show ?thesis by (rule visit_rel_trans)
    qed
  qed
next
  case (6 ident s)
  then show ?case
    by (auto simp: visit_rel_def extends_def scope_ext_refl add_import_line_def)
next
  case (7 s)
  then show ?case by (simp add: visit_rel_refl)
next
  case (8 e s)
  then show ?case by (simp add: visit_rel_refl)
next
  case (9 s)
  then show ?case by (simp add: visit_rel_refl)
next
  case (10 st sts s)
  from "10.prems" obtain s1 where a: "visit_stmt st s = Inr s1"
    and b: "visit_block sts s1 = Inr s'"
    by (auto split: sum.splits)
  from "10.IH"(1) [OF a] "10.IH"(2) [OF a b] show ?case by (rule visit_rel_trans)
next
  case (11 s)
  then show ?case by (simp add: visit_rel_refl)
next
  case (12 b bs s)
  from "12.prems" obtain s1 where a: "visit_block b s = Inr s1"
    and r: "visit_bodies bs s1 = Inr s'"
    by (auto split: sum.splits)
  from "12.IH"(1) [OF a] "12.IH"(2) [OF a r] show ?case by (rule visit_rel_trans)
qed

section \<open>Empty classes\<close>

lemma body_without_output:
  assumes en: "class_enter name bases s = (sep, n, s1)"
    and body: "visit_block defs s1 = Inr s2"
    and len: "length (s_output s2) = n"
  shows "s2 = s\<lparr>s_output := s_output s @ class_header name bases s,
                 s_indent := s_indent s @ ''    '', s_vars := s_vars s @ [[]],
                 s_import_lines := s_import_lines s2\<rparr>"
proof -
  from en have s1: "s1 = s\<lparr>s_output := s_output s @ class_header name bases s,
        s_indent := s_indent s @ ''    '', s_vars := s_vars s @ [[]]\<rparr>"
    and n: "n = length (s_output s) + length (class_header name bases s)"
    unfolding class_enter_eq by auto
  from visit_frame(2) [OF body] have r: "visit_rel s1 s2" .
  have "length (s_output s2) = length (s_output s1)" using len n s1 by simp
  with r have "s2 = s1\<lparr>s_import_lines := s_import_lines s2\<rparr>"
    unfolding visit_rel_def by blast
  then show ?thesis unfolding s1 by simp
qed

lemma nested_empty_class_general:
  assumes en: "class_enter name bases s = (sep, n, s1)"
    and body: "visit_block defs s1 = Inr s2"
    and len: "length (s_output s2) = n"
    and ind: "s_indent s \<noteq> []"
    and st: "s_state s = EMPTY_CLASS"
  shows "visit_stmt (ClassDef name bases defs) s = Inl UnboundLocalError"
proof -
  note s2 = body_without_output [OF en body len]
  from en ind have sep: "sep = None" unfolding class_enter_eq by auto
  have a: "s_vars s2 \<noteq> []" "s_state s2 = EMPTY_CLASS"
    by (subst s2, simp add: st)+
  have "class_leave None n s2 = Inl UnboundLocalError"
    unfolding class_leave_def using a len by (simp add: Let_def)
  then show ?thesis using en body sep by simp
qed

lemmas run_simps = generate_stub_def visit_mypy_file_def StubGenerator_init_def find_classes_def
      visit_func_def_def is_private_name_def startswith_def endswith_def
      find_self_initializers_def add_def render_arg_def add_import_def gen_output_def
      class_enter_def class_leave_def rewrite_last_def visit_assignment_stmt_def add_init_def
      add_import_line_def Let_def

text \<open>
  Claim C9.  Some well-formed trees make the generator abort.  When a class is visited at
  nonzero indentation while the formatting state is \<^verbatim>\<open>EMPTY_CLASS\<close> and its body
  appends no output, \<^verbatim>\<open>visit_class_def\<close> reads \<^verbatim>\<open>sep\<close>, which was never bound on that
  path, and the run fails.  Two modules that do so: a class whose body holds two
  consecutive empty nested classes, and a top-level empty class followed by a class that
  holds an empty nested class.
\<close>

theorem nested_empty_class_aborts:
  "(class_enter name base_type_exprs s = (sep, n, s1) \<and> visit_block defs s1 = Inr s2 \<and>
    length (s_output s2) = n \<and> s_indent s \<noteq> [] \<and> s_state s = EMPTY_CLASS
    \<longrightarrow> visit_stmt (ClassDef name base_type_exprs defs) s = Inl UnboundLocalError)
   \<and> generate_stub
        [ClassDef ''Outer'' [] [ClassDef ''A'' [] [PassStmt], ClassDef ''B'' [] [PassStmt]]]
       = Inl UnboundLocalError
   \<and> generate_stub
        [ClassDef ''E'' [] [PassStmt], ClassDef ''Outer'' [] [ClassDef ''A'' [] [PassStmt]]]
       = Inl UnboundLocalError"
proof (intro conjI impI)
  assume "class_enter name base_type_exprs s = (sep, n, s1) \<and> visit_block defs s1 = Inr s2 \<and>
    length (s_output s2) = n \<and> s_indent s \<noteq> [] \<and> s_state s = EMPTY_CLASS"
  then show "visit_stmt (ClassDef name base_type_exprs defs) s = Inl UnboundLocalError"
    using nested_empty_class_general by blast
next
  show "generate_stub
        [ClassDef ''Outer'' [] [ClassDef ''A'' [] [PassStmt], ClassDef ''B'' [] [PassStmt]]]
       = Inl UnboundLocalError"
    by (simp add: run_simps)
next
  show "generate_stub
        [ClassDef ''E'' [] [PassStmt], ClassDef ''Outer'' [] [ClassDef ''A'' [] [PassStmt]]]
       = Inl UnboundLocalError"
    by (simp add: run_simps)
qed

theorem nested_empty_class_aborts_witness:
  "class_enter ''B'' [] (StubGenerator_init\<lparr>s_indent := ''    '', s_state := EMPTY_CLASS\<rparr>) =
     (None, 2, StubGenerator_init\<lparr>s_output := [''class B'', '':\<newline>''], s_indent := ''        '',
                 s_vars := [[], []], s_state := EMPTY_CLASS\<rparr>)
   \<and> visit_block [PassStmt]
        (StubGenerator_init\<lparr>s_output := [''class B'', '':\<newline>''], s_indent := ''        '',
                 s_vars := [[], []], s_state := EMPTY_CLASS\<rparr>) =
       Inr (StubGenerator_init\<lparr>s_output := [''class B'', '':\<newline>''], s_indent := ''        '',
                 s_vars := [[], []], s_state := EMPTY_CLASS\<rparr>)
   \<and> visit_stmt (ClassDef ''B'' [] [PassStmt])
        (StubGenerator_init\<lparr>s_indent := ''    '', s_state := EMPTY_CLASS\<rparr>)
       = Inl UnboundLocalError"
  using nested_empty_class_aborts [of "''B''" "[]"
      "StubGenerator_init\<lparr>s_indent := ''    '', s_state := EMPTY_CLASS\<rparr>" None 2
      "StubGenerator_init\<lparr>s_output := [''class B'', '':\<newline>''], s_indent := ''        '',
                 s_vars := [[], []], s_state := EMPTY_CLASS\<rparr>"
      "[PassStmt]"
      "StubGenerator_init\<lparr>s_output := [''class B'', '':\<newline>''], s_indent := ''        '',
                 s_vars := [[], []], s_state := EMPTY_CLASS\<rparr>"]
  by (simp add: StubGenerator_init_def class_enter_def add_def Let_def)

section \<open>Declarations per scope\<close>



lemma rewrite_last_header:
  "s_output s = front @ [x] \<Longrightarrow>
   rewrite_last s = Inr (s\<lparr>s_output := front @ [butlast x @ '' pass\<newline>''], s_state := EMPTY_CLASS\<rparr>)"
  by (simp add: rewrite_last_def)

lemma class_leave_unfold:
  "class_leave sep n s2 =
     (if s_vars s2 = [] then Inl IndexError
      else
        (let s3 = s2\<lparr>s_indent := take (length (s_indent s2) - 4) (s_indent s2),
                      s_vars := butlast (s_vars s2)\<rparr>
         in if length (s_output s2) = n then
              (if s_state s2 = EMPTY_CLASS then
                 (case sep of
                    None \<Rightarrow> Inl UnboundLocalError
                  | Some i \<Rightarrow>
                      (if i < length (s_output s2)
                       then rewrite_last (s3\<lparr>s_output := (s_output s2)[i := []]\<rparr>)
                       else Inl IndexError))
               else rewrite_last s3)
            else Inr (s3\<lparr>s_state := CLASS\<rparr>)))"
  by (simp add: class_leave_def Let_def split: option.split)

text \<open>
  The visit of a class whose body appends no output, when it does not abort.
\<close>

lemma empty_class_visit:
  assumes en: "class_enter name base_type_exprs s = (sep, n, s1)"
    and body: "visit_block defs s1 = Inr s2"
    and len: "length (s_output s2) = n"
    and ok: "\<not> (s_indent s \<noteq> [] \<and> s_state s = EMPTY_CLASS)"
  shows "visit_stmt (ClassDef name base_type_exprs defs) s =
     Inr (s\<lparr>s_output := s_output s
             @ (if s_indent s = [] \<and> s_state s \<noteq> EMPTY
                then [if s_state s = EMPTY_CLASS then [] else ''\<newline>''] else [])
             @ [''class '' @ name]
             @ (if base_types (s_classes s) base_type_exprs \<noteq> []
                then [''('' @ join '', '' (base_types (s_classes s) base_type_exprs) @ '')'']
                else [])
             @ ['': pass\<newline>''],
           s_import_lines := s_import_lines s2, s_state := EMPTY_CLASS\<rparr>)"
proof -
  define mid where "mid = [''class '' @ name]
             @ (if base_types (s_classes s) base_type_exprs \<noteq> []
                then [''('' @ join '', '' (base_types (s_classes s) base_type_exprs) @ '')'']
                else [])"
  define reserve where "reserve \<longleftrightarrow> s_indent s = [] \<and> s_state s \<noteq> EMPTY"
  have hdr: "class_header name base_type_exprs s
      = (if reserve then [''\<newline>''] else []) @ mid @ ['':\<newline>'']"
    by (simp add: class_header_def mid_def reserve_def)
  have sep: "sep = (if reserve then Some (length (s_output s)) else None)"
    using en unfolding class_enter_eq reserve_def by auto
  have s2: "s2 = s\<lparr>s_output := s_output s @ (if reserve then [''\<newline>''] else []) @ mid @ ['':\<newline>''],
                 s_indent := s_indent s @ ''    '', s_vars := s_vars s @ [[]],
                 s_import_lines := s_import_lines s2\<rparr>"
    using body_without_output [OF en body len] unfolding hdr .
  define s3 where "s3 = s\<lparr>s_output := s_output s @ (if reserve then [''\<newline>''] else []) @ mid @ ['':\<newline>''],
                 s_import_lines := s_import_lines s2\<rparr>"
  have pop: "s2\<lparr>s_indent := take (length (s_indent s2) - 4) (s_indent s2),
               s_vars := butlast (s_vars s2)\<rparr> = s3"
    by (subst (1 2 3 4) s2) (simp add: s3_def)
  have f2: "s_vars s2 \<noteq> []" "s_state s2 = s_state s" "s_output s2 = s_output s3"
    by (subst s2, simp add: s3_def)+
  have len3: "length (s_output s3) = n" using len f2(3) by simp
  have lv: "class_leave sep n s2 =
      (if s_state s = EMPTY_CLASS then
         (case sep of None \<Rightarrow> Inl UnboundLocalError
          | Some i \<Rightarrow> (if i < length (s_output s3)
                       then rewrite_last (s3\<lparr>s_output := (s_output s3)[i := []]\<rparr>)
                       else Inl IndexError))
       else rewrite_last s3)"
    unfolding class_leave_unfold Let_def pop by (simp add: f2 len3 split: option.split)
  have vs: "visit_stmt (ClassDef name base_type_exprs defs) s = class_leave sep n s2"
    using en body by simp
  show ?thesis
  proof (cases "s_state s = EMPTY_CLASS")
    case False
    have "s_output s3 = (s_output s @ (if reserve then [''\<newline>''] else []) @ mid) @ ['':\<newline>'']"
      by (simp add: s3_def)
    from rewrite_last_header [OF this] False show ?thesis
      unfolding vs lv by (simp add: s3_def mid_def reserve_def)
  next
    case True
    with ok have r: "reserve" by (simp add: reserve_def)
    let ?s4 = "s3\<lparr>s_output := (s_output s3)[length (s_output s) := []]\<rparr>"
    have "s_output ?s4 = (s_output s @ [[]] @ mid) @ ['':\<newline>'']"
      using r by (simp add: s3_def)
    from rewrite_last_header [OF this] True r show ?thesis
      unfolding vs unfolding lv unfolding sep by (simp add: s3_def mid_def reserve_def)
  qed
qed

text \<open>
  Claim C3, as amended.  When the body of a class appends no output (and the visit does
  not abort), the colon fragment after the header is rewritten to end in \<^verbatim>\<open> pass\<close>
  and a line break, so that the class renders on one line, and the formatting state
  becomes \<^verbatim>\<open>EMPTY_CLASS\<close>.  The blank-line slot, reserved at top level after any
  earlier declaration, is emptied only when the formatting state is \<^verbatim>\<open>EMPTY_CLASS\<close>,
  that is when the previous declaration was an empty class too; after a declaration of any
  other kind the blank line stays.
\<close>

theorem empty_class_single_line:
  assumes en: "class_enter name base_type_exprs s = (sep, n, s1)"
    and body: "visit_block defs s1 = Inr s2"
    and len: "length (s_output s2) = n"
    and ok: "\<not> (s_indent s \<noteq> [] \<and> s_state s = EMPTY_CLASS)"
  shows "visit_stmt (ClassDef name base_type_exprs defs) s =
     Inr (s\<lparr>s_output := s_output s
             @ (if s_indent s = [] \<and> s_state s \<noteq> EMPTY
                then [if s_state s = EMPTY_CLASS then [] else ''\<newline>''] else [])
             @ [''class '' @ name]
             @ (if base_types (s_classes s) base_type_exprs \<noteq> []
                then [''('' @ join '', '' (base_types (s_classes s) base_type_exprs) @ '')'']
                else [])
             @ ['': pass\<newline>''],
           s_import_lines := s_import_lines s2, s_state := EMPTY_CLASS\<rparr>)"
  using en body len ok by (rule empty_class_visit)

theorem empty_class_single_line_witness:
  "class_enter ''C'' [] (StubGenerator_init\<lparr>s_output := [''def f('', [], ''): pass\<newline>''], s_state := FUNC\<rparr>)
     = (Some 3, 6, StubGenerator_init\<lparr>s_output := [''def f('', [], ''): pass\<newline>'', ''\<newline>'', ''class C'', '':\<newline>''],
          s_indent := ''    '', s_vars := [[], []], s_state := FUNC\<rparr>)
   \<and> visit_block [PassStmt]
        (StubGenerator_init\<lparr>s_output := [''def f('', [], ''): pass\<newline>'', ''\<newline>'', ''class C'', '':\<newline>''],
          s_indent := ''    '', s_vars := [[], []], s_state := FUNC\<rparr>)
       = Inr (StubGenerator_init\<lparr>s_output := [''def f('', [], ''): pass\<newline>'', ''\<newline>'', ''class C'', '':\<newline>''],
          s_indent := ''    '', s_vars := [[], []], s_state := FUNC\<rparr>)
   \<and> visit_stmt (ClassDef ''C'' [] [PassStmt])
        (StubGenerator_init\<lparr>s_output := [''def f('', [], ''): pass\<newline>''], s_state := FUNC\<rparr>)
       = Inr (StubGenerator_init\<lparr>s_output := [''def f('', [], ''): pass\<newline>'', ''\<newline>'', ''class C'', '': pass\<newline>''],
                s_state := EMPTY_CLASS\<rparr>)"
  using empty_class_single_line [of "''C''" "[]"
      "StubGenerator_init\<lparr>s_output := [''def f('', [], ''): pass\<newline>''], s_state := FUNC\<rparr>"
      "Some 3" 6
      "StubGenerator_init\<lparr>s_output := [''def f('', [], ''): pass\<newline>'', ''\<newline>'', ''class C'', '':\<newline>''],
          s_indent := ''    '', s_vars := [[], []], s_state := FUNC\<rparr>"
      "[PassStmt]"
      "StubGenerator_init\<lparr>s_output := [''def f('', [], ''): pass\<newline>'', ''\<newline>'', ''class C'', '':\<newline>''],
          s_indent := ''    '', s_vars := [[], []], s_state := FUNC\<rparr>"]
  by (simp add: StubGenerator_init_def class_enter_def add_def Let_def)

text \<open>
  After a function, the slot reserved for an empty class is kept: the module
  \<^verbatim>\<open>def f(): pass\<close>, \<^verbatim>\<open>class C: pass\<close> has a blank line between the two.
\<close>

theorem empty_class_counterexample:
  "visit_mypy_file [FuncDef ''f'' [] [] [] [], ClassDef ''C'' [] [PassStmt]] =
     Inr \<lparr>s_output = [''def f('', [], ''): pass\<newline>'', ''\<newline>'', ''class C'', '': pass\<newline>''],
          s_import_lines = [], s_imports = [], s_indent = [], s_vars = [[]],
          s_state = EMPTY_CLASS, s_classes = {''C''}\<rparr>
   \<and> generate_stub [FuncDef ''f'' [] [] [] [], ClassDef ''C'' [] [PassStmt]] =
     Inr ''def f(): pass\<newline>\<newline>class C: pass\<newline>''"
  by (simp add: run_simps)

section \<open>The formatting state\<close>

lemma concat_snoc_length:
  "vs \<noteq> [] \<Longrightarrow> length (concat (butlast vs)) + length (last vs) = length (concat vs)"
  by (induction vs) auto

lemma add_init_scope_size:
  assumes "add_init x s = Inr (b, s')"
  shows "length (concat (s_vars s')) =
           (if b then Suc (length (concat (s_vars s))) else length (concat (s_vars s)))"
  using assms
  by (auto simp: add_init_def add_def add_import_def Let_def concat_snoc_length split: if_splits)

lemma assign_items_found:
  "assign_items items sep found s = Inr (f, s') \<Longrightarrow>
     length (concat (s_vars s)) \<le> length (concat (s_vars s')) \<and>
     (f \<longleftrightarrow> found \<or> length (concat (s_vars s)) < length (concat (s_vars s'))) \<and>
     (length (concat (s_vars s')) = length (concat (s_vars s)) \<longrightarrow> s_vars s' = s_vars s)"
proof (induction items sep found s rule: assign_items.induct)
  case (1 sep found s)
  then show ?case by simp
next
  case (2 name items sep found s)
  define need where "need = (\<not> sep \<and> s_indent s = [] \<and> s_state s \<notin> {EMPTY, VAR})"
  define s1 where "s1 = (if need then add ''\<newline>'' s else s)"
  define sep1 where "sep1 = (if need then True else sep)"
  from "2.prems" obtain b s2 where a: "add_init name s1 = Inr (b, s2)"
    and r: "assign_items items sep1 (b \<or> found) s2 = Inr (f, s')"
    by (auto simp: Let_def need_def s1_def sep1_def split: sum.splits)
  have v1: "s_vars s1 = s_vars s" by (simp add: s1_def add_def)
  note sz = add_init_scope_size [OF a]
  have same: "s_vars s2 = s_vars s1" if "\<not> b" using add_init_frame(4) [OF a that] by simp
  note ih = "2.IH" [OF need_def s1_def sep1_def a refl r]
  show ?case
  proof (cases b)
    case True
    with sz ih v1 show ?thesis by auto
  next
    case False
    with same sz ih v1 show ?thesis by auto
  qed
qed simp_all

lemma visit_assignment_stmt_state:
  assumes "visit_assignment_stmt lvalues s = Inr s'"
  shows "if s_vars s' \<noteq> s_vars s then s_state s' = VAR else s_state s' = s_state s"
proof -
  from assms obtain items f s1 where
    a: "assign_items items False False s = Inr (f, s1)"
    and fin: "s' = (if f then s1\<lparr>s_state := VAR\<rparr> else s1)"
    unfolding visit_assignment_stmt_def
    by (auto simp: Let_def split: list.splits sum.splits)
  from assign_items_frame [OF a] have st: "s_state s1 = s_state s" by simp
  from assign_items_found [OF a]
  have "f \<longleftrightarrow> s_vars s1 \<noteq> s_vars s" by auto
  then show ?thesis unfolding fin using st by auto
qed

text \<open>
  Inside the body of a first top-level class the state is still \<^verbatim>\<open>EMPTY\<close>; visiting a
  method there, at an indentation of four spaces, changes it to \<^verbatim>\<open>FUNC\<close>.
\<close>

theorem indented_method_changes_state_counterexample:
  "class_enter ''C'' [] StubGenerator_init =
     (None, 2, \<lparr>s_output = [''class C'', '':\<newline>''], s_import_lines = [], s_imports = [],
                s_indent = ''    '', s_vars = [[], []], s_state = EMPTY, s_classes = {}\<rparr>)
   \<and> visit_stmt (FuncDef ''m'' [''self''] [ARG_POS] [None] [])
        \<lparr>s_output = [''class C'', '':\<newline>''], s_import_lines = [], s_imports = [],
         s_indent = ''    '', s_vars = [[], []], s_state = EMPTY, s_classes = {}\<rparr> =
     Inr \<lparr>s_output = [''class C'', '':\<newline>'', ''    def m('', ''self'', ''): pass\<newline>''],
          s_import_lines = [], s_imports = [], s_indent = ''    '', s_vars = [[], []],
          s_state = FUNC, s_classes = {}\<rparr>"
  by (simp add: run_simps)

section \<open>Base classes\<close>

lemma base_types_mem:
  "name \<in> set (base_types cls bases) \<longleftrightarrow>
     NameExpr name \<in> set bases \<and>
     (name \<in> cls \<or> endswith name ''Exception'' \<or> endswith name ''Error'')"
  by (induction cls bases rule: base_types.induct) auto

lemma find_classes_top_level:
  "ClassDef a ba da \<in> set defs \<Longrightarrow> a \<in> find_classes defs"
  unfolding find_classes_def by (induction defs) auto

text \<open>
  A class declared inside a class body is not collected: in \<^verbatim>\<open>class Outer\<close> holding
  \<^verbatim>\<open>class A\<close> and \<^verbatim>\<open>class B(A, X)\<close>, the base \<^verbatim>\<open>A\<close> is declared in the module and
  yet dropped.
\<close>

theorem nested_base_class_counterexample:
  "find_classes
     [ClassDef ''Outer'' []
        [ClassDef ''A'' [] [AssignmentStmt [NameExpr ''x''] (IntExpr 1)],
         ClassDef ''B'' [NameExpr ''A'', NameExpr ''X'']
           [AssignmentStmt [NameExpr ''y''] (IntExpr 1)]]] = {''Outer''}
   \<and> generate_stub
     [ClassDef ''Outer'' []
        [ClassDef ''A'' [] [AssignmentStmt [NameExpr ''x''] (IntExpr 1)],
         ClassDef ''B'' [NameExpr ''A'', NameExpr ''X'']
           [AssignmentStmt [NameExpr ''y''] (IntExpr 1)]]]
   = Inr ''from typing import Undefined, Any\<newline>\<newline>class Outer:\<newline>class A:\<newline>        x = Undefined(Any)\<newline>class B:\<newline>        y = Undefined(Any)\<newline>''"
  by (simp add: run_simps)

section \<open>Serialization\<close>

lemma add_import_order:
  "s_imports (add_import name s) =
     (if name \<in> set (s_imports s) then s_imports s else s_imports s @ [name])"
  by (simp add: add_import_def)

text \<open>
  Claim C8.  The serialized text is: when helper symbols are registered, one line that
  imports them from \<^verbatim>\<open>typing\<close>, joined by comma and space in the order of first
  registration; then the recorded wildcard-import lines as they are, in order, duplicates
  included; then one blank line when the text so far is not empty, which for non-empty
  recorded lines means that some import was emitted; then the fragments of the output
  buffer in order.  A wildcard import appends its line to the recorded lines; a helper
  symbol is appended on its first registration only.
\<close>

theorem output_layout:
  "gen_output s =
     (let header =
        (if s_imports s \<noteq> [] then ''from typing import '' @ join '', '' (s_imports s) @ ''\<newline>''
         else [])
        @ concat (s_import_lines s)
      in header @ (if header \<noteq> [] then ''\<newline>'' else []) @ concat (s_output s))
   \<and> ((\<forall>line \<in> set (s_import_lines s). line \<noteq> []) \<longrightarrow>
        ((if s_imports s \<noteq> [] then ''from typing import '' @ join '', '' (s_imports s) @ ''\<newline>''
          else []) @ concat (s_import_lines s) \<noteq> []
         \<longleftrightarrow> s_imports s \<noteq> [] \<or> s_import_lines s \<noteq> []))
   \<and> visit_stmt (ImportAll ident) s =
       Inr (s\<lparr>s_import_lines := s_import_lines s @ [''from '' @ ident @ '' import *\<newline>'']\<rparr>)
   \<and> s_imports (add_import name s) =
       (if name \<in> set (s_imports s) then s_imports s else s_imports s @ [name])"
proof (intro conjI impI)
  show "gen_output s =
     (let header =
        (if s_imports s \<noteq> [] then ''from typing import '' @ join '', '' (s_imports s) @ ''\<newline>''
         else [])
        @ concat (s_import_lines s)
      in header @ (if header \<noteq> [] then ''\<newline>'' else []) @ concat (s_output s))"
    by (simp add: gen_output_def Let_def)
next
  assume "\<forall>line \<in> set (s_import_lines s). line \<noteq> []"
  then show "(if s_imports s \<noteq> [] then ''from typing import '' @ join '', '' (s_imports s) @ ''\<newline>''
          else []) @ concat (s_import_lines s) \<noteq> []
         \<longleftrightarrow> s_imports s \<noteq> [] \<or> s_import_lines s \<noteq> []"
    by (cases "s_import_lines s") auto
next
  show "visit_stmt (ImportAll ident) s =
       Inr (s\<lparr>s_import_lines := s_import_lines s @ [''from '' @ ident @ '' import *\<newline>'']\<rparr>)"
    by (simp add: add_import_line_def)
next
  show "s_imports (add_import name s) =
       (if name \<in> set (s_imports s) then s_imports s else s_imports s @ [name])"
    by (rule add_import_order)
qed

theorem output_layout_witness:
  "gen_output (StubGenerator_init\<lparr>s_output := [''x = Undefined(Any)\<newline>''],
       s_import_lines := [''from os import *\<newline>'', ''from os import *\<newline>''],
       s_imports := [''Undefined'', ''Any'']\<rparr>) =
     ''from typing import Undefined, Any\<newline>from os import *\<newline>from os import *\<newline>\<newline>x = Undefined(Any)\<newline>''
   \<and> ''from os import *\<newline>'' \<noteq> []
   \<and> gen_output (StubGenerator_init\<lparr>s_output := [''def f('', [], ''): pass\<newline>'']\<rparr>) =
     ''def f(): pass\<newline>''"
  using output_layout [of "StubGenerator_init\<lparr>s_output := [''x = Undefined(Any)\<newline>''],
       s_import_lines := [''from os import *\<newline>'', ''from os import *\<newline>''],
       s_imports := [''Undefined'', ''Any'']\<rparr>"]
    output_layout [of "StubGenerator_init\<lparr>s_output := [''def f('', [], ''): pass\<newline>'']\<rparr>"]
  by (simp add: StubGenerator_init_def Let_def)

section \<open>Whole signatures\<close>

text \<open>
  Two signatures rendered by a whole run: keyword-only parameters with and without
  defaults, and one default of each literal shape of the table.
\<close>

lemma keyword_only_example:
  "generate_stub
     [FuncDef ''f'' [''a'', ''b'', ''c'', ''d''] [ARG_POS, ARG_NAMED, ARG_NAMED, ARG_NAMED]
        [None, None, Some (IntExpr 1), Some (IntExpr 2)] []]
   = Inr ''def f(a, b, *, c=1, d=2): pass\<newline>''"
  by (simp add: run_simps str_int_def)

lemma default_table_example:
  "generate_stub
     [FuncDef ''g'' [''a'', ''b'', ''c'', ''d'', ''e'', ''f'']
        [ARG_POS, ARG_POS, ARG_POS, ARG_POS, ARG_POS, ARG_POS]
        [Some (IntExpr 3), Some (StrExpr ''s''), Some (BytesExpr ''s''), Some (FloatExpr ''2.5''),
         Some (UnaryExpr ''-'' (IntExpr 5)), Some (NameExpr ''None'')] []]
   = Inr (''def g(a=3, b='' @ [CHR 0x27, CHR 0x27] @ '', c=b'' @ [CHR 0x27, CHR 0x27]
          @ '', d=0.0, e=-5, f=None): pass\<newline>'')"
  by (simp add: run_simps str_int_def)

section \<open>Parameters in the rendered signature\<close>

text \<open>
  The loop of \<^verbatim>\<open>visit_func_def\<close> over the parameters, followed from one round to the
  whole list and to the fragments that the visit appends.
\<close>

lemma render_arg_shape:
  assumes "render_arg name kind ini args s = Inr (r, s')"
  shows "\<exists>entry. r = args @ (if kind = ARG_NAMED \<and> ini \<noteq> None \<and> ''*'' \<notin> set args
                               then [''*''] else []) @ [entry]
           \<and> (ini = None \<longrightarrow> entry = (if kind = ARG_STAR then ''*'' @ name
                                       else if kind = ARG_STAR2 then ''**'' @ name else name))
           \<and> (\<forall>e. ini = Some e \<longrightarrow>
                 (\<exists>txt. render_default e s = Inr (txt, s') \<and> entry = name @ ''='' @ txt))"
  using assms unfolding render_arg_def
  by (auto split: option.splits sum.splits if_splits)

lemma render_args_extends:
  "render_args i params init args s = Inr (r, s') \<Longrightarrow> \<exists>ext. r = args @ ext"
proof (induction i params init args s rule: render_args.induct)
  case (1 i init args s)
  then show ?case by simp
next
  case (2 i name kind rest init args s)
  from "2.prems" obtain args1 s1 where
    a: "render_arg name kind (init ! i) args s = Inr (args1, s1)"
    and b: "render_args (Suc i) rest init args1 s1 = Inr (r, s')"
    and c: "\<not> length init \<le> i"
    by (auto split: if_splits sum.splits)
  from render_arg_shape [OF a] obtain e1 where "args1 = args @ e1" by blast
  moreover from "2.IH" [OF c a refl b] obtain e2 where "r = args1 @ e2" by blast
  ultimately show ?case by simp
qed

lemma render_args_append:
  "render_args i (xs @ ys) init args s =
     (case render_args i xs init args s of
        Inl e \<Rightarrow> Inl e
      | Inr (r, s1) \<Rightarrow> render_args (i + length xs) ys init r s1)"
proof (induction xs arbitrary: i args s)
  case Nil
  then show ?case by simp
next
  case (Cons p xs)
  obtain name kind where p: "p = (name, kind)" by (cases p)
  show ?case
  proof (cases "length init \<le> i")
    case True
    then show ?thesis by (simp add: p)
  next
    case False
    show ?thesis
    proof (cases "render_arg name kind (init ! i) args s")
      case (Inl e)
      with False show ?thesis by (simp add: p)
    next
      case (Inr res)
      obtain args1 s1 where res: "res = (args1, s1)" by (cases res)
      from Cons.IH [of "Suc i" args1 s1] False Inr show ?thesis
        by (simp add: p res split: sum.splits prod.splits)
    qed
  qed
qed

text \<open>The entry of the parameter at position \<open>j\<close> within the list that the loop renders.\<close>

lemma render_args_at:
  assumes r: "render_args 0 params init [] s = Inr (rendered, s')"
    and j: "j < length params"
  shows "\<exists>pre entry post sj sk.
      render_args 0 (take j params) init [] s = Inr (pre, sj)
      \<and> j < length init
      \<and> render_arg (fst (params ! j)) (snd (params ! j)) (init ! j) pre sj
           = Inr (pre @ (if snd (params ! j) = ARG_NAMED \<and> init ! j \<noteq> None \<and> ''*'' \<notin> set pre
                        then [''*''] else []) @ [entry], sk)
      \<and> render_args (Suc j) (drop (Suc j) params) init
           (pre @ (if snd (params ! j) = ARG_NAMED \<and> init ! j \<noteq> None \<and> ''*'' \<notin> set pre
                   then [''*''] else []) @ [entry]) sk = Inr (rendered, s')
      \<and> rendered = pre @ (if snd (params ! j) = ARG_NAMED \<and> init ! j \<noteq> None \<and> ''*'' \<notin> set pre
                          then [''*''] else []) @ [entry] @ post
      \<and> (init ! j = None \<longrightarrow>
            entry = (if snd (params ! j) = ARG_STAR then ''*'' @ fst (params ! j)
                     else if snd (params ! j) = ARG_STAR2 then ''**'' @ fst (params ! j)
                     else fst (params ! j)))
      \<and> (\<forall>e. init ! j = Some e \<longrightarrow>
            (\<exists>txt. render_default e sj = Inr (txt, sk) \<and> entry = fst (params ! j) @ ''='' @ txt))"
proof -
  obtain nm kd where pj: "params ! j = (nm, kd)" by (cases "params ! j")
  have split: "params = take j params @ (nm, kd) # drop (Suc j) params"
    using id_take_nth_drop [OF j] unfolding pj .
  have lj: "length (take j params) = j" using j by simp
  have "render_args 0 (take j params @ (nm, kd) # drop (Suc j) params) init [] s
          = Inr (rendered, s')"
    using r split by simp
  then obtain pre sj where
    a: "render_args 0 (take j params) init [] s = Inr (pre, sj)"
    and b: "render_args j ((nm, kd) # drop (Suc j) params) init pre sj = Inr (rendered, s')"
    unfolding render_args_append lj by (auto split: sum.splits)
  from b have len: "j < length init" by (auto split: if_splits)
  with b obtain mid sk where
    c: "render_arg nm kd (init ! j) pre sj = Inr (mid, sk)"
    and d: "render_args (Suc j) (drop (Suc j) params) init mid sk = Inr (rendered, s')"
    by (auto split: sum.splits)
  from render_arg_shape [OF c] obtain entry where
    mid: "mid = pre @ (if kd = ARG_NAMED \<and> init ! j \<noteq> None \<and> ''*'' \<notin> set pre
                       then [''*''] else []) @ [entry]"
    and en: "init ! j = None \<longrightarrow> entry = (if kd = ARG_STAR then ''*'' @ nm
                                       else if kd = ARG_STAR2 then ''**'' @ nm else nm)"
    and ed: "\<forall>e. init ! j = Some e \<longrightarrow>
                 (\<exists>txt. render_default e sj = Inr (txt, sk) \<and> entry = nm @ ''='' @ txt)"
    by (elim exE conjE)
  from render_args_extends [OF d] obtain post where post: "rendered = mid @ post" by blast
  have "render_args 0 (take j params) init [] s = Inr (pre, sj)
      \<and> j < length init
      \<and> render_arg nm kd (init ! j) pre sj
           = Inr (pre @ (if kd = ARG_NAMED \<and> init ! j \<noteq> None \<and> ''*'' \<notin> set pre
                        then [''*''] else []) @ [entry], sk)
      \<and> render_args (Suc j) (drop (Suc j) params) init
           (pre @ (if kd = ARG_NAMED \<and> init ! j \<noteq> None \<and> ''*'' \<notin> set pre
                   then [''*''] else []) @ [entry]) sk = Inr (rendered, s')
      \<and> rendered = pre @ (if kd = ARG_NAMED \<and> init ! j \<noteq> None \<and> ''*'' \<notin> set pre
                          then [''*''] else []) @ [entry] @ post
      \<and> (init ! j = None \<longrightarrow> entry = (if kd = ARG_STAR then ''*'' @ nm
                                       else if kd = ARG_STAR2 then ''**'' @ nm else nm))
      \<and> (\<forall>e. init ! j = Some e \<longrightarrow>
            (\<exists>txt. render_default e sj = Inr (txt, sk) \<and> entry = nm @ ''='' @ txt))"
    using a len c [unfolded mid] d [unfolded mid] post [unfolded mid] en ed
    by (intro conjI) simp_all
  then show ?thesis unfolding pj fst_conv snd_conv by (intro exI)
qed


text \<open>
  What the visit of a function that is not private appends last: the \<^verbatim>\<open>def\<close> fragment,
  the rendered parameters joined by comma and space, and the closing fragment.
\<close>

lemma visit_func_def_output:
  assumes v: "visit_func_def name args arg_kinds init body s = Inr s'"
    and np: "\<not> is_private_name name"
  shows "\<exists>inits s2 rendered s4.
      find_self_initializers body = Inr inits
      \<and> add_inits inits (if s_indent s = [] \<and> s_state s \<notin> {EMPTY, FUNC}
                          then add ''\<newline>'' s else s) = Inr s2
      \<and> render_args 0 (zip args arg_kinds) init []
           (add (s_indent s @ ''def '' @ name @ ''('') s2) = Inr (rendered, s4)
      \<and> s_output s' = s_output s2 @ [s_indent s @ ''def '' @ name @ ''('',
                                      join '', '' rendered, ''): pass\<newline>'']
      \<and> s_imports s' = s_imports s4 \<and> s_import_lines s' = s_import_lines s4"
proof -
  define s1 where "s1 = (if s_indent s = [] \<and> s_state s \<notin> {EMPTY, FUNC} then add ''\<newline>'' s else s)"
  from v np obtain inits s2 rendered s4 where
    fi: "find_self_initializers body = Inr inits"
    and ai: "add_inits inits s1 = Inr s2"
    and ra: "render_args 0 (zip args arg_kinds) init []
               (add (s_indent s2 @ ''def '' @ name @ ''('') s2) = Inr (rendered, s4)"
    and fin: "s' = (add ''): pass\<newline>'' (add (join '', '' rendered) s4))\<lparr>s_state := FUNC\<rparr>"
    unfolding visit_func_def_def s1_def
    by (auto simp: Let_def split: sum.splits if_splits)
  have i1: "s_indent s1 = s_indent s" by (simp add: s1_def add_def)
  from add_inits_frame [OF ai] have i2: "s_indent s2 = s_indent s"
    unfolding extends_def using i1 by simp
  let ?s3 = "add (s_indent s2 @ ''def '' @ name @ ''('') s2"
  from render_args_frame [OF ra] have s4: "s4 = ?s3\<lparr>s_imports := s_imports s4\<rparr>" .
  have o4: "s_output s4 = s_output s2 @ [s_indent s @ ''def '' @ name @ ''('']"
    by (subst s4) (simp add: add_def i2)
  have "s_output s' = s_output s2 @ [s_indent s @ ''def '' @ name @ ''('',
                                      join '', '' rendered, ''): pass\<newline>'']"
    unfolding fin by (simp add: add_def o4)
  moreover have "s_imports s' = s_imports s4" "s_import_lines s' = s_import_lines s4"
    unfolding fin by (simp_all add: add_def)
  ultimately show ?thesis using fi ai ra unfolding s1_def i2 by blast
qed

text \<open>
  Claim C10.  In the signature that \<^verbatim>\<open>visit_func_def\<close> emits, the parameter at any
  position \<open>j\<close> contributes, after the entries \<open>pre\<close> of the parameters before it, a bare
  \<^verbatim>\<open>*\<close> entry exactly when it is keyword-only, has a default, and no \<^verbatim>\<open>*\<close> entry is
  among \<open>pre\<close>, and then its own entry.  Without a default the entry is \<^verbatim>\<open>*name\<close> for
  star-args, \<^verbatim>\<open>**name\<close> for double-star-args and the bare name otherwise; so a
  keyword-only parameter without a default is rendered as its bare name with no \<^verbatim>\<open>*\<close>
  before it, as a positional parameter is.
\<close>

theorem keyword_only_rendering:
  assumes v: "visit_stmt (FuncDef name args arg_kinds init body) s = Inr s'"
    and np: "\<not> is_private_name name"
    and j: "j < length args" "j < length arg_kinds"
  shows "\<exists>front pre entry post.
      s_output s' =
        front @ [s_indent s @ ''def '' @ name @ ''('',
                 join '', ''
                   (pre @ (if arg_kinds ! j = ARG_NAMED \<and> init ! j \<noteq> None \<and> ''*'' \<notin> set pre
                           then [''*''] else [])
                        @ [entry] @ post),
                 ''): pass\<newline>'']
      \<and> (\<exists>t u. render_args 0 (take j (zip args arg_kinds)) init [] t = Inr (pre, u))
      \<and> j < length init
      \<and> (init ! j = None \<longrightarrow>
            entry = (if arg_kinds ! j = ARG_STAR then ''*'' @ args ! j
                     else if arg_kinds ! j = ARG_STAR2 then ''**'' @ args ! j else args ! j))
      \<and> (\<forall>e. init ! j = Some e \<longrightarrow> (\<exists>txt. entry = args ! j @ ''='' @ txt))"
proof -
  from v have v': "visit_func_def name args arg_kinds init body s = Inr s'" by simp
  from visit_func_def_output [OF v' np] obtain s2 rendered s4 where
    ra: "render_args 0 (zip args arg_kinds) init []
           (add (s_indent s @ ''def '' @ name @ ''('') s2) = Inr (rendered, s4)"
    and out: "s_output s' = s_output s2 @ [s_indent s @ ''def '' @ name @ ''('',
                                      join '', '' rendered, ''): pass\<newline>'']"
    by (elim exE conjE)
  have jz: "j < length (zip args arg_kinds)" using j by simp
  have nth: "fst (zip args arg_kinds ! j) = args ! j" "snd (zip args arg_kinds ! j) = arg_kinds ! j"
    using j by simp_all
  from render_args_at [OF ra jz] obtain pre entry post sj sk where
    a: "render_args 0 (take j (zip args arg_kinds)) init []
          (add (s_indent s @ ''def '' @ name @ ''('') s2) = Inr (pre, sj)"
    and len: "j < length init"
    and r: "rendered = pre @ (if arg_kinds ! j = ARG_NAMED \<and> init ! j \<noteq> None \<and> ''*'' \<notin> set pre
                          then [''*''] else []) @ [entry] @ post"
    and n: "init ! j = None \<longrightarrow>
            entry = (if arg_kinds ! j = ARG_STAR then ''*'' @ args ! j
                     else if arg_kinds ! j = ARG_STAR2 then ''**'' @ args ! j else args ! j)"
    and d: "\<forall>e. init ! j = Some e \<longrightarrow>
            (\<exists>txt. render_default e sj = Inr (txt, sk) \<and> entry = args ! j @ ''='' @ txt)"
    unfolding nth by (elim exE conjE)
  have d': "\<forall>e. init ! j = Some e \<longrightarrow> (\<exists>txt. entry = args ! j @ ''='' @ txt)"
  proof (intro allI impI)
    fix e assume "init ! j = Some e"
    with d obtain tx where "entry = args ! j @ ''='' @ tx" by (elim allE impE exE conjE)
    then show "\<exists>txt. entry = args ! j @ ''='' @ txt" ..
  qed
  have "s_output s' =
        s_output s2 @ [s_indent s @ ''def '' @ name @ ''('',
                 join '', ''
                   (pre @ (if arg_kinds ! j = ARG_NAMED \<and> init ! j \<noteq> None \<and> ''*'' \<notin> set pre
                           then [''*''] else [])
                        @ [entry] @ post),
                 ''): pass\<newline>'']
      \<and> (\<exists>t u. render_args 0 (take j (zip args arg_kinds)) init [] t = Inr (pre, u))
      \<and> j < length init
      \<and> (init ! j = None \<longrightarrow>
            entry = (if arg_kinds ! j = ARG_STAR then ''*'' @ args ! j
                     else if arg_kinds ! j = ARG_STAR2 then ''**'' @ args ! j else args ! j))
      \<and> (\<forall>e. init ! j = Some e \<longrightarrow> (\<exists>txt. entry = args ! j @ ''='' @ txt))"
  proof (intro conjI)
    show "s_output s' =
        s_output s2 @ [s_indent s @ ''def '' @ name @ ''('',
                 join '', ''
                   (pre @ (if arg_kinds ! j = ARG_NAMED \<and> init ! j \<noteq> None \<and> ''*'' \<notin> set pre
                           then [''*''] else [])
                        @ [entry] @ post),
                 ''): pass\<newline>'']"
      using out unfolding r .
    show "\<exists>t u. render_args 0 (take j (zip args arg_kinds)) init [] t = Inr (pre, u)"
      using a by (intro exI)
  qed (rule len, rule n, rule d')
  then show ?thesis by (intro exI)
qed


theorem keyword_only_rendering_witness:
  "visit_stmt (FuncDef ''f'' [''a'', ''b'', ''c''] [ARG_POS, ARG_NAMED, ARG_NAMED]
       [None, None, Some (IntExpr 1)] []) StubGenerator_init
     = Inr (StubGenerator_init\<lparr>s_output := [''def f('', ''a, b, *, c=1'', ''): pass\<newline>''],
              s_state := FUNC\<rparr>)
   \<and> \<not> is_private_name ''f''
   \<and> 1 < length [''a'', ''b'', ''c'']
   \<and> 1 < length [ARG_POS, ARG_NAMED, ARG_NAMED]
   \<and> (\<exists>front pre entry post.
      s_output (StubGenerator_init\<lparr>s_output := [''def f('', ''a, b, *, c=1'', ''): pass\<newline>''], s_state := FUNC\<rparr>) =
        front @ [s_indent StubGenerator_init @ ''def '' @ ''f'' @ ''('',
                 join '', ''
                   (pre @ (if [ARG_POS, ARG_NAMED, ARG_NAMED] ! 1 = ARG_NAMED \<and> [None, None, Some (IntExpr 1)] ! 1 \<noteq> None \<and> ''*'' \<notin> set pre
                           then [''*''] else [])
                        @ [entry] @ post),
                 ''): pass\<newline>'']
      \<and> (\<exists>t u. render_args 0 (take 1 (zip [''a'', ''b'', ''c''] [ARG_POS, ARG_NAMED, ARG_NAMED])) [None, None, Some (IntExpr 1)] [] t = Inr (pre, u))
      \<and> 1 < length [None, None, Some (IntExpr 1)]
      \<and> ([None, None, Some (IntExpr 1)] ! 1 = None \<longrightarrow>
            entry = (if [ARG_POS, ARG_NAMED, ARG_NAMED] ! 1 = ARG_STAR then ''*'' @ [''a'', ''b'', ''c''] ! 1
                     else if [ARG_POS, ARG_NAMED, ARG_NAMED] ! 1 = ARG_STAR2 then ''**'' @ [''a'', ''b'', ''c''] ! 1 else [''a'', ''b'', ''c''] ! 1))
      \<and> (\<forall>e. [None, None, Some (IntExpr 1)] ! 1 = Some e \<longrightarrow> (\<exists>txt. entry = [''a'', ''b'', ''c''] ! 1 @ ''='' @ txt)))"
proof -
  have a: "visit_stmt (FuncDef ''f'' [''a'', ''b'', ''c''] [ARG_POS, ARG_NAMED, ARG_NAMED]
       [None, None, Some (IntExpr 1)] []) StubGenerator_init
     = Inr (StubGenerator_init\<lparr>s_output := [''def f('', ''a, b, *, c=1'', ''): pass\<newline>''],
              s_state := FUNC\<rparr>)"
    by (simp add: run_simps str_int_def)
  have b: "\<not> is_private_name ''f''" by (simp add: is_private_name_def startswith_def)
  have c: "1 < length [''a'', ''b'', ''c'']" by simp
  have d: "1 < length [ARG_POS, ARG_NAMED, ARG_NAMED]" by simp
  note e = keyword_only_rendering [OF a b c d]
  show ?thesis
    by (rule conjI, rule a, rule conjI, rule b, rule conjI, rule c, rule conjI, rule d, rule e)
qed

text \<open>The helper symbols that the parameter loop and the attribute loop register.\<close>

lemma render_default_imports:
  assumes "render_default e s = Inr (txt, s')"
  shows "set (s_imports s) \<subseteq> set (s_imports s')"
    "set (s_imports s') \<subseteq> insert ''Undefined'' (set (s_imports s))"
    "distinct (s_imports s) \<Longrightarrow> distinct (s_imports s')"
  using assms by (cases e; auto simp: add_import_def split: option.splits if_splits)+

lemma render_arg_imports:
  assumes "render_arg name kind ini args s = Inr (r, s')"
  shows "set (s_imports s) \<subseteq> set (s_imports s')"
    "set (s_imports s') \<subseteq> insert ''Undefined'' (set (s_imports s))"
    "distinct (s_imports s) \<Longrightarrow> distinct (s_imports s')"
proof -
  consider (none) "s' = s" | (some) e tx where "render_default e s = Inr (tx, s')"
    using assms unfolding render_arg_def
    by (auto split: option.splits sum.splits if_splits)
  then have "set (s_imports s) \<subseteq> set (s_imports s')
    \<and> set (s_imports s') \<subseteq> insert ''Undefined'' (set (s_imports s))
    \<and> (distinct (s_imports s) \<longrightarrow> distinct (s_imports s'))"
  proof cases
    case none
    then show ?thesis by auto
  next
    case some
    from render_default_imports [OF some] show ?thesis by simp
  qed
  then show "set (s_imports s) \<subseteq> set (s_imports s')"
    "set (s_imports s') \<subseteq> insert ''Undefined'' (set (s_imports s))"
    "distinct (s_imports s) \<Longrightarrow> distinct (s_imports s')" by simp_all
qed

lemma render_args_imports:
  "render_args i params init args s = Inr (r, s') \<Longrightarrow>
     set (s_imports s) \<subseteq> set (s_imports s')
     \<and> set (s_imports s') \<subseteq> insert ''Undefined'' (set (s_imports s))
     \<and> (distinct (s_imports s) \<longrightarrow> distinct (s_imports s'))"
proof (induction i params init args s rule: render_args.induct)
  case (1 i init args s)
  then show ?case by auto
next
  case (2 i name kind rest init args s)
  from "2.prems" obtain args1 s1 where
    a: "render_arg name kind (init ! i) args s = Inr (args1, s1)"
    and b: "render_args (Suc i) rest init args1 s1 = Inr (r, s')"
    and c: "\<not> length init \<le> i"
    by (auto split: if_splits sum.splits)
  note x = render_arg_imports [OF a]
  note y = "2.IH" [OF c a refl b]
  from x(1) y have 1: "set (s_imports s) \<subseteq> set (s_imports s')" by blast
  from x(2) y have 2: "set (s_imports s') \<subseteq> insert ''Undefined'' (set (s_imports s))" by blast
  from x(3) y have 3: "distinct (s_imports s) \<longrightarrow> distinct (s_imports s')" by blast
  from 1 2 3 show ?case by simp
qed

lemma add_inits_imports:
  "add_inits xs s = Inr s' \<Longrightarrow>
     set (s_imports s) \<subseteq> set (s_imports s')
     \<and> (distinct (s_imports s) \<longrightarrow> distinct (s_imports s'))"
proof (induction xs arbitrary: s)
  case Nil
  then show ?case by simp
next
  case (Cons x xs)
  from Cons.prems obtain b s1 where a: "add_init x s = Inr (b, s1)"
    and r: "add_inits xs s1 = Inr s'"
    by (auto split: sum.splits)
  from a have "set (s_imports s) \<subseteq> set (s_imports s1)
     \<and> (distinct (s_imports s) \<longrightarrow> distinct (s_imports s1))"
    by (auto simp: add_init_def add_def add_import_def Let_def split: if_splits)
  with Cons.IH [OF r] show ?case by blast
qed


lemma gen_output_import_line:
  "s_imports s \<noteq> [] \<Longrightarrow>
   \<exists>rest. gen_output s = ''from typing import '' @ join '', '' (s_imports s) @ ''\<newline>'' @ rest"
  by (simp add: gen_output_def Let_def)

text \<open>
  Claim C1, as amended.  When the default of the parameter at position \<open>j\<close> is none of
  the literal shapes of the table (integer, string, byte string, float, unary negation,
  the name \<^verbatim>\<open>None\<close>) and no unary expression with another operator either,
  \<^verbatim>\<open>visit_func_def\<close> renders the parameter as \<^verbatim>\<open>name=Undefined\<close> in the signature and
  registers \<^verbatim>\<open>Undefined\<close>, which stays registered once.  When the body assigns no
  attribute of \<^verbatim>\<open>self\<close>, \<^verbatim>\<open>Undefined\<close> is the only helper symbol the visit adds:
  \<^verbatim>\<open>Any\<close> is not registered on this path.  The serialized text then starts with the
  line that imports the registered symbols.
\<close>

theorem unknown_default_placeholder:
  assumes v: "visit_stmt (FuncDef name args arg_kinds init body) s = Inr s'"
    and np: "\<not> is_private_name name"
    and j: "j < length args" "j < length arg_kinds"
    and d: "init ! j = Some e"
    and shape: "\<forall>v. e \<noteq> IntExpr v" "\<forall>v. e \<noteq> StrExpr v" "\<forall>v. e \<noteq> BytesExpr v"
      "\<forall>v. e \<noteq> FloatExpr v" "\<forall>op x. e \<noteq> UnaryExpr op x" "e \<noteq> NameExpr ''None''"
  shows "(\<exists>front pre post.
           s_output s' =
             front @ [s_indent s @ ''def '' @ name @ ''('',
                      join '', ''
                        (pre @ (if arg_kinds ! j = ARG_NAMED \<and> ''*'' \<notin> set pre
                                then [''*''] else [])
                             @ [args ! j @ ''=Undefined''] @ post),
                      ''): pass\<newline>''])
         \<and> ''Undefined'' \<in> set (s_imports s')
         \<and> (distinct (s_imports s) \<longrightarrow> distinct (s_imports s'))
         \<and> (find_self_initializers body = Inr [] \<longrightarrow>
               set (s_imports s') = insert ''Undefined'' (set (s_imports s)))
         \<and> (\<exists>rest. gen_output s' =
               ''from typing import '' @ join '', '' (s_imports s') @ ''\<newline>'' @ rest)"
proof -
  from v have v': "visit_func_def name args arg_kinds init body s = Inr s'" by simp
  define s1 where "s1 = (if s_indent s = [] \<and> s_state s \<notin> {EMPTY, FUNC} then add ''\<newline>'' s else s)"
  from visit_func_def_output [OF v' np] obtain inits s2 rendered s4 where
    fi: "find_self_initializers body = Inr inits"
    and ai: "add_inits inits s1 = Inr s2"
    and ra: "render_args 0 (zip args arg_kinds) init []
           (add (s_indent s @ ''def '' @ name @ ''('') s2) = Inr (rendered, s4)"
    and out: "s_output s' = s_output s2 @ [s_indent s @ ''def '' @ name @ ''('',
                                      join '', '' rendered, ''): pass\<newline>'']"
    and im: "s_imports s' = s_imports s4"
    unfolding s1_def by (elim exE conjE)
  let ?s3 = "add (s_indent s @ ''def '' @ name @ ''('') s2"
  have jz: "j < length (zip args arg_kinds)" using j by simp
  have nth: "fst (zip args arg_kinds ! j) = args ! j" "snd (zip args arg_kinds ! j) = arg_kinds ! j"
    using j by simp_all
  from render_args_at [OF ra jz] obtain pre entry post sj sk where
    a: "render_args 0 (take j (zip args arg_kinds)) init [] ?s3 = Inr (pre, sj)"
    and rest: "render_args (Suc j) (drop (Suc j) (zip args arg_kinds)) init
           (pre @ (if arg_kinds ! j = ARG_NAMED \<and> init ! j \<noteq> None \<and> ''*'' \<notin> set pre
                   then [''*''] else []) @ [entry]) sk = Inr (rendered, s4)"
    and r: "rendered = pre @ (if arg_kinds ! j = ARG_NAMED \<and> init ! j \<noteq> None \<and> ''*'' \<notin> set pre
                          then [''*''] else []) @ [entry] @ post"
    and ed: "\<forall>e. init ! j = Some e \<longrightarrow>
            (\<exists>txt. render_default e sj = Inr (txt, sk) \<and> entry = args ! j @ ''='' @ txt)"
    unfolding nth by (elim exE conjE)
  from ed d obtain tx where rd: "render_default e sj = Inr (tx, sk)"
    and en: "entry = args ! j @ ''='' @ tx"
    by (elim allE impE exE conjE)
  have eq: "render_default e sj = Inr (''Undefined'', add_import ''Undefined'' sj)"
    by (rule render_default_unknown [OF shape])
  have pq: "Inr (''Undefined'', add_import ''Undefined'' sj) = (Inr (tx, sk) :: error + string \<times> gen)"
    using rd unfolding eq .
  from pq have tx: "tx = ''Undefined''" by (auto simp only: sum.inject prod.inject)
  from pq have sk: "sk = add_import ''Undefined'' sj" by (auto simp only: sum.inject prod.inject)
  have r': "rendered = pre @ (if arg_kinds ! j = ARG_NAMED \<and> ''*'' \<notin> set pre then [''*''] else [])
                           @ [args ! j @ ''=Undefined''] @ post"
    using r d unfolding en tx by simp
  have 1: "\<exists>front pre post.
           s_output s' =
             front @ [s_indent s @ ''def '' @ name @ ''('',
                      join '', ''
                        (pre @ (if arg_kinds ! j = ARG_NAMED \<and> ''*'' \<notin> set pre
                                then [''*''] else [])
                             @ [args ! j @ ''=Undefined''] @ post),
                      ''): pass\<newline>'']"
    using out unfolding r' by (intro exI)
  have "''Undefined'' \<in> set (s_imports sk)" unfolding sk by (simp add: add_import_set)
  with render_args_imports [OF rest] have u4: "''Undefined'' \<in> set (s_imports s4)" by blast
  then have 2: "''Undefined'' \<in> set (s_imports s')" unfolding im .
  have i1: "s_imports s1 = s_imports s" by (simp add: s1_def add_def)
  have i3: "s_imports ?s3 = s_imports s2" by (simp add: add_def)
  note x = add_inits_imports [OF ai]
  note y = render_args_imports [OF ra]
  have 3: "distinct (s_imports s) \<longrightarrow> distinct (s_imports s')"
    using x y unfolding im i1 i3 by blast
  have 4: "find_self_initializers body = Inr [] \<longrightarrow>
               set (s_imports s') = insert ''Undefined'' (set (s_imports s))"
  proof
    assume "find_self_initializers body = Inr []"
    with fi have "inits = []" by simp
    with ai have "s2 = s1" by simp
    then have "s_imports ?s3 = s_imports s" using i1 i3 by simp
    with y u4 show "set (s_imports s') = insert ''Undefined'' (set (s_imports s))"
      unfolding im by auto
  qed
  from 2 have "s_imports s' \<noteq> []" by auto
  then have 5: "\<exists>rest. gen_output s' =
               ''from typing import '' @ join '', '' (s_imports s') @ ''\<newline>'' @ rest"
    by (rule gen_output_import_line)
  show ?thesis
    by (rule conjI, rule 1, rule conjI, rule 2, rule conjI, rule 3, rule conjI, rule 4, rule 5)
qed

theorem unknown_default_placeholder_witness:
  "visit_stmt (FuncDef ''f'' [''x''] [ARG_POS] [Some (CallExpr (NameExpr ''some_call'') [])] [])
       StubGenerator_init
     = Inr (StubGenerator_init\<lparr>s_output := [''def f('', ''x=Undefined'', ''): pass\<newline>''],
              s_imports := [''Undefined''], s_state := FUNC\<rparr>)
   \<and> \<not> is_private_name ''f''
   \<and> [Some (CallExpr (NameExpr ''some_call'') [])] ! 0 = Some (CallExpr (NameExpr ''some_call'') [])
   \<and> ''Undefined'' \<in> set (s_imports (StubGenerator_init\<lparr>s_output := [''def f('', ''x=Undefined'', ''): pass\<newline>''],
              s_imports := [''Undefined''], s_state := FUNC\<rparr>))
   \<and> set (s_imports (StubGenerator_init\<lparr>s_output := [''def f('', ''x=Undefined'', ''): pass\<newline>''],
              s_imports := [''Undefined''], s_state := FUNC\<rparr>)) = {''Undefined''}
   \<and> gen_output (StubGenerator_init\<lparr>s_output := [''def f('', ''x=Undefined'', ''): pass\<newline>''],
              s_imports := [''Undefined''], s_state := FUNC\<rparr>)
       = ''from typing import Undefined\<newline>\<newline>def f(x=Undefined): pass\<newline>''"
proof -
  let ?e = "CallExpr (NameExpr ''some_call'') []"
  let ?s' = "StubGenerator_init\<lparr>s_output := [''def f('', ''x=Undefined'', ''): pass\<newline>''],
              s_imports := [''Undefined''], s_state := FUNC\<rparr>"
  have a: "visit_stmt (FuncDef ''f'' [''x''] [ARG_POS] [Some ?e] []) StubGenerator_init = Inr ?s'"
    by (simp add: run_simps)
  have b: "\<not> is_private_name ''f''" by (simp add: is_private_name_def startswith_def)
  have c: "0 < length [''x'']" "0 < length [ARG_POS]" by simp_all
  have d: "[Some ?e] ! 0 = Some ?e" by simp
  have sh: "\<forall>v. ?e \<noteq> IntExpr v" "\<forall>v. ?e \<noteq> StrExpr v" "\<forall>v. ?e \<noteq> BytesExpr v"
      "\<forall>v. ?e \<noteq> FloatExpr v" "\<forall>op x. ?e \<noteq> UnaryExpr op x" "?e \<noteq> NameExpr ''None''"
    by simp_all
  have fs: "find_self_initializers [] = Inr []" by (simp add: find_self_initializers_def)
  note t = unknown_default_placeholder [OF a b c d sh]
  from t have u: "''Undefined'' \<in> set (s_imports ?s')" by (elim conjE)
  from t fs have w: "set (s_imports ?s') = insert ''Undefined'' (set (s_imports StubGenerator_init))"
    by (elim conjE) simp
  have w': "set (s_imports ?s') = {''Undefined''}"
    using w by (simp add: StubGenerator_init_def)
  have g: "gen_output ?s' = ''from typing import Undefined\<newline>\<newline>def f(x=Undefined): pass\<newline>''"
    by (simp add: run_simps)
  show ?thesis
    by (rule conjI, rule a, rule conjI, rule b, rule conjI, rule d, rule conjI, rule u,
        rule conjI, rule w', rule g)
qed

text \<open>
  Unary expressions are matched whatever their operator, and the operand is read through
  its \<^verbatim>\<open>value\<close> attribute: \<^verbatim>\<open>x=+5\<close> is rendered as \<^verbatim>\<open>x=-5\<close>, and an operand
  that is not a literal raises.
\<close>

lemma unary_default_examples:
  "render_default (UnaryExpr ''-'' (IntExpr 5)) s = Inr (''-5'', s)"
  "render_default (UnaryExpr ''+'' (IntExpr 5)) s = Inr (''-5'', s)"
  "render_default (UnaryExpr ''not'' (NameExpr ''flag'')) s = Inl AttributeError"
  "render_default (UnaryExpr ''-'' (NameExpr ''y'')) s = Inl AttributeError"
  by (simp_all add: str_int_def)

section \<open>The formatting state after a declaration\<close>

lemma class_visit_state:
  assumes en: "class_enter cname bases s = (sep, n, s1)"
    and body: "visit_block defs s1 = Inr s2"
    and v: "visit_stmt (ClassDef cname bases defs) s = Inr s'"
  shows "s_state s' = (if length (s_output s2) = length (s_output s1) then EMPTY_CLASS else CLASS)"
proof -
  from en have n: "n = length (s_output s1)" unfolding class_enter_eq by auto
  from v en body have lv: "class_leave sep n s2 = Inr s'" by simp
  show ?thesis
  proof (cases "length (s_output s2) = length (s_output s1)")
    case True
    with lv n have "(\<exists>t. rewrite_last t = Inr s')"
      unfolding class_leave_unfold Let_def
      by (auto split: if_splits option.splits)
    then obtain t where "rewrite_last t = Inr s'" ..
    from rewrite_last_facts(2) [OF this] True show ?thesis by simp
  next
    case False
    with lv n show ?thesis
      unfolding class_leave_unfold Let_def by (auto split: if_splits)
  qed
qed

text \<open>
  Claim C2, as amended.  The formatting state is the kind of the declaration visited last,
  at any indentation.  After a function that is not private it is \<^verbatim>\<open>FUNC\<close>; after a
  class it is \<^verbatim>\<open>EMPTY_CLASS\<close> when the body appended no output and \<^verbatim>\<open>CLASS\<close>
  otherwise; after an assignment it is \<^verbatim>\<open>VAR\<close> when a name was newly declared.  A
  private function, an assignment that declares nothing, and the statements that are no
  declarations leave it as it was.  So methods, nested classes and class-level variables
  change it as top-level declarations do.
\<close>

theorem state_follows_every_declaration:
  "(is_private_name name \<longrightarrow> visit_stmt (FuncDef name args arg_kinds init body) s = Inr s)
   \<and> (\<not> is_private_name name \<and> visit_stmt (FuncDef name args arg_kinds init body) s = Inr s'
       \<longrightarrow> s_state s' = FUNC)
   \<and> (class_enter cname base_type_exprs s = (sep, n, s1) \<and> visit_block defs s1 = Inr s2 \<and>
       visit_stmt (ClassDef cname base_type_exprs defs) s = Inr s'
       \<longrightarrow> s_state s' =
            (if length (s_output s2) = length (s_output s1) then EMPTY_CLASS else CLASS))
   \<and> (visit_stmt (AssignmentStmt lvalues rvalue) s = Inr s'
       \<longrightarrow> (if s_vars s' \<noteq> s_vars s then s_state s' = VAR else s_state s' = s_state s))
   \<and> visit_stmt PassStmt s = Inr s
   \<and> visit_stmt (ExpressionStmt ex) s = Inr s
   \<and> (visit_stmt (ImportAll ident) s = Inr s' \<longrightarrow> s_state s' = s_state s)"
proof (intro conjI impI)
  assume "is_private_name name"
  then show "visit_stmt (FuncDef name args arg_kinds init body) s = Inr s"
    by (simp add: visit_func_def_def)
next
  assume "\<not> is_private_name name \<and> visit_stmt (FuncDef name args arg_kinds init body) s = Inr s'"
  then have "\<not> is_private_name name"
    and "visit_func_def name args arg_kinds init body s = Inr s'" by simp_all
  from visit_func_def_frame(4) [OF this(2) this(1)] show "s_state s' = FUNC" .
next
  assume "class_enter cname base_type_exprs s = (sep, n, s1) \<and> visit_block defs s1 = Inr s2 \<and>
       visit_stmt (ClassDef cname base_type_exprs defs) s = Inr s'"
  then have a: "class_enter cname base_type_exprs s = (sep, n, s1)"
    and b: "visit_block defs s1 = Inr s2"
    and c: "visit_stmt (ClassDef cname base_type_exprs defs) s = Inr s'" by blast+
  show "s_state s' = (if length (s_output s2) = length (s_output s1) then EMPTY_CLASS else CLASS)"
    by (rule class_visit_state [OF a b c])
next
  assume "visit_stmt (AssignmentStmt lvalues rvalue) s = Inr s'"
  then show "if s_vars s' \<noteq> s_vars s then s_state s' = VAR else s_state s' = s_state s"
    using visit_assignment_stmt_state by simp
next
  show "visit_stmt PassStmt s = Inr s" by simp
next
  show "visit_stmt (ExpressionStmt ex) s = Inr s" by simp
next
  assume "visit_stmt (ImportAll ident) s = Inr s'"
  then show "s_state s' = s_state s" by (auto simp: add_import_line_def)
qed


theorem state_follows_every_declaration_witness:
  "is_private_name ''_p''
   \<and> visit_stmt (FuncDef ''_p'' [] [] [] []) (StubGenerator_init\<lparr>s_indent := ''    '', s_vars := [[], []], s_state := FUNC\<rparr>) = Inr (StubGenerator_init\<lparr>s_indent := ''    '', s_vars := [[], []], s_state := FUNC\<rparr>)
   \<and> \<not> is_private_name ''m''
   \<and> visit_stmt (FuncDef ''m'' [''self''] [ARG_POS] [None] []) (StubGenerator_init\<lparr>s_indent := ''    '', s_vars := [[], []], s_state := CLASS\<rparr>) = Inr (StubGenerator_init\<lparr>s_output := [''    def m('', ''self'', ''): pass\<newline>''], s_indent := ''    '', s_vars := [[], []], s_state := FUNC\<rparr>)
   \<and> class_enter ''D'' [] (StubGenerator_init\<lparr>s_indent := ''    '', s_vars := [[], []], s_state := FUNC\<rparr>) = (None, 2, (StubGenerator_init\<lparr>s_output := [''class D'', '':\<newline>''], s_indent := ''        '', s_vars := [[], [], []], s_state := FUNC\<rparr>))
   \<and> visit_block [AssignmentStmt [NameExpr ''x''] (IntExpr 1)] (StubGenerator_init\<lparr>s_output := [''class D'', '':\<newline>''], s_indent := ''        '', s_vars := [[], [], []], s_state := FUNC\<rparr>) = Inr (StubGenerator_init\<lparr>s_output := [''class D'', '':\<newline>'', ''        x = Undefined(Any)\<newline>''], s_imports := [''Undefined'', ''Any''], s_indent := ''        '', s_vars := [[], [], [''x'']], s_state := VAR\<rparr>)
   \<and> visit_stmt (ClassDef ''D'' [] [AssignmentStmt [NameExpr ''x''] (IntExpr 1)]) (StubGenerator_init\<lparr>s_indent := ''    '', s_vars := [[], []], s_state := FUNC\<rparr>) = Inr (StubGenerator_init\<lparr>s_output := [''class D'', '':\<newline>'', ''        x = Undefined(Any)\<newline>''], s_imports := [''Undefined'', ''Any''], s_indent := ''    '', s_vars := [[], []], s_state := CLASS\<rparr>)
   \<and> visit_stmt (AssignmentStmt [NameExpr ''x''] (IntExpr 1)) (StubGenerator_init\<lparr>s_indent := ''    '', s_vars := [[], []], s_state := FUNC\<rparr>) = Inr (StubGenerator_init\<lparr>s_output := [''    x = Undefined(Any)\<newline>''], s_imports := [''Undefined'', ''Any''], s_indent := ''    '', s_vars := [[], [''x'']], s_state := VAR\<rparr>)
   \<and> visit_stmt (ImportAll ''os'') (StubGenerator_init\<lparr>s_indent := ''    '', s_vars := [[], []], s_state := FUNC\<rparr>) = Inr (StubGenerator_init\<lparr>s_import_lines := [''from os import *\<newline>''], s_indent := ''    '', s_vars := [[], []], s_state := FUNC\<rparr>)"
  using state_follows_every_declaration [where name = "''_p''" and args = "[]" and arg_kinds = "[]"
      and init = "[]" and body = "[]" and s = "StubGenerator_init\<lparr>s_indent := ''    '', s_vars := [[], []], s_state := FUNC\<rparr>"]
    state_follows_every_declaration [where name = "''m''" and args = "[''self'']"
      and arg_kinds = "[ARG_POS]" and init = "[None]" and body = "[]"
      and s = "StubGenerator_init\<lparr>s_indent := ''    '', s_vars := [[], []], s_state := CLASS\<rparr>" and s' = "StubGenerator_init\<lparr>s_output := [''    def m('', ''self'', ''): pass\<newline>''], s_indent := ''    '', s_vars := [[], []], s_state := FUNC\<rparr>"]
    state_follows_every_declaration [where cname = "''D''" and base_type_exprs = "[]"
      and s = "StubGenerator_init\<lparr>s_indent := ''    '', s_vars := [[], []], s_state := FUNC\<rparr>" and sep = None and n = 2
      and ?s1.0 = "StubGenerator_init\<lparr>s_output := [''class D'', '':\<newline>''], s_indent := ''        '', s_vars := [[], [], []], s_state := FUNC\<rparr>" and defs = "[AssignmentStmt [NameExpr ''x''] (IntExpr 1)]"
      and ?s2.0 = "StubGenerator_init\<lparr>s_output := [''class D'', '':\<newline>'', ''        x = Undefined(Any)\<newline>''], s_imports := [''Undefined'', ''Any''], s_indent := ''        '', s_vars := [[], [], [''x'']], s_state := VAR\<rparr>" and s' = "StubGenerator_init\<lparr>s_output := [''class D'', '':\<newline>'', ''        x = Undefined(Any)\<newline>''], s_imports := [''Undefined'', ''Any''], s_indent := ''    '', s_vars := [[], []], s_state := CLASS\<rparr>"]
    state_follows_every_declaration [where lvalues = "[NameExpr ''x'']" and rvalue = "IntExpr 1"
      and s = "StubGenerator_init\<lparr>s_indent := ''    '', s_vars := [[], []], s_state := FUNC\<rparr>" and s' = "StubGenerator_init\<lparr>s_output := [''    x = Undefined(Any)\<newline>''], s_imports := [''Undefined'', ''Any''], s_indent := ''    '', s_vars := [[], [''x'']], s_state := VAR\<rparr>"]
    state_follows_every_declaration [where ident = "''os''"
      and s = "StubGenerator_init\<lparr>s_indent := ''    '', s_vars := [[], []], s_state := FUNC\<rparr>" and s' = "StubGenerator_init\<lparr>s_import_lines := [''from os import *\<newline>''], s_indent := ''    '', s_vars := [[], []], s_state := FUNC\<rparr>"]
  by (simp add: run_simps)


section \<open>What the class collector finds\<close>

lemma declared_outside_class_mono:
  assumes "declared_outside_class c sts" "set sts \<subseteq> set sts'"
  shows "declared_outside_class c sts'"
  using assms
proof (cases rule: declared_outside_class.cases)
  case (here base_type_exprs defs)
  with assms(2) show ?thesis by (blast intro: declared_outside_class.here)
next
  case (in_function f args arg_kinds init body)
  with assms(2) show ?thesis by (blast intro: declared_outside_class.in_function)
next
  case (in_decorated decorators func)
  with assms(2) show ?thesis by (blast intro: declared_outside_class.in_decorated)
next
  case (in_branch conds bodies else_body b)
  with assms(2) show ?thesis by (blast intro: declared_outside_class.in_branch)
next
  case (in_else conds bodies b)
  with assms(2) show ?thesis by (blast intro: declared_outside_class.in_else)
qed

lemma classes_collected_declared:
  "c \<in> classes_stmt st \<Longrightarrow> declared_outside_class c [st]"
  "c \<in> classes_block sts \<Longrightarrow> declared_outside_class c sts"
  "c \<in> classes_bodies bs \<Longrightarrow> \<exists>b \<in> set bs. declared_outside_class c b"
proof (induction st and sts and bs rule: classes_stmt_classes_block_classes_bodies.induct)
  case (1 name base_type_exprs defs)
  then have "ClassDef c base_type_exprs defs \<in> set [ClassDef name base_type_exprs defs]" by simp
  then show ?case by (rule declared_outside_class.here)
next
  case (2 name args arg_kinds init body)
  then have "declared_outside_class c body" by simp
  moreover have "FuncDef name args arg_kinds init body \<in> set [FuncDef name args arg_kinds init body]"
    by simp
  ultimately show ?case by (rule declared_outside_class.in_function [rotated])
next
  case (3 decorators func)
  then have "declared_outside_class c [func]" by simp
  moreover have "Decorator decorators func \<in> set [Decorator decorators func]" by simp
  ultimately show ?case by (rule declared_outside_class.in_decorated [rotated])
next
  case (4 conds body else_body)
  have m: "IfStmt conds body else_body \<in> set [IfStmt conds body else_body]" by simp
  from "4.prems" consider (branch) "c \<in> classes_bodies body"
    | (els) b where "else_body = Some b" "c \<in> classes_block b"
    by (auto split: option.splits)
  then show ?case
  proof cases
    case branch
    with "4.IH"(1) obtain b where "b \<in> set body" "declared_outside_class c b" by blast
    with m show ?thesis by (rule declared_outside_class.in_branch)
  next
    case els
    with "4.IH"(2) have "declared_outside_class c b" by simp
    with m [unfolded els(1)] show ?thesis unfolding els(1)
      by (rule declared_outside_class.in_else)
  qed
next
  case (10 st sts)
  from "10.prems" consider "c \<in> classes_stmt st" | "c \<in> classes_block sts" by auto
  then show ?case
  proof cases
    case 1
    with "10.IH"(1) have "declared_outside_class c [st]" by simp
    then show ?thesis by (rule declared_outside_class_mono) simp
  next
    case 2
    with "10.IH"(2) have "declared_outside_class c sts" by simp
    then show ?thesis by (rule declared_outside_class_mono) auto
  qed
next
  case (12 b bs)
  from "12.prems" consider "c \<in> classes_block b" | "c \<in> classes_bodies bs" by auto
  then show ?case
  proof cases
    case 1
    with "12.IH"(1) show ?thesis by simp
  next
    case 2
    with "12.IH"(2) show ?thesis by auto
  qed
qed simp_all

lemma classes_stmt_in_block: "st \<in> set sts \<Longrightarrow> classes_stmt st \<subseteq> classes_block sts"
  by (induction sts) auto

lemma classes_block_in_bodies: "b \<in> set bs \<Longrightarrow> classes_block b \<subseteq> classes_bodies bs"
  by (induction bs) auto

lemma declared_classes_collected:
  "declared_outside_class c sts \<Longrightarrow> c \<in> classes_block sts"
proof (induction rule: declared_outside_class.induct)
  case (here name base_type_exprs defs sts)
  from classes_stmt_in_block [OF this] show ?case by simp
next
  case (in_function f args arg_kinds init body sts name)
  from classes_stmt_in_block [OF in_function.hyps(1)] in_function.IH show ?case by auto
next
  case (in_decorated decorators func sts name)
  from classes_stmt_in_block [OF in_decorated.hyps(1)] in_decorated.IH show ?case by auto
next
  case (in_branch conds bodies else_body sts b name)
  from classes_stmt_in_block [OF in_branch.hyps(1)]
    classes_block_in_bodies [OF in_branch.hyps(2)] in_branch.IH
  show ?case by auto
next
  case (in_else conds bodies b sts name)
  from classes_stmt_in_block [OF in_else.hyps(1)] in_else.IH show ?case by auto
qed

lemma find_classes_iff: "c \<in> find_classes defs \<longleftrightarrow> declared_outside_class c defs"
  unfolding find_classes_def
  using classes_collected_declared(2) declared_classes_collected by blast

lemma base_types_append:
  "base_types cls (xs @ ys) = base_types cls xs @ base_types cls ys"
  by (induction cls xs rule: base_types.induct) auto


text \<open>
  The fragments of a class visit: the blank-line slot if any, the class name, the kept
  bases, the colon fragment, then what the body appended.
\<close>

lemma class_visit_output:
  assumes v: "visit_stmt (ClassDef cname base_type_exprs defs) s = Inr s'"
  shows "\<exists>pre colon body_out.
            s_output s' =
              s_output s @ pre @ [''class '' @ cname]
              @ (if base_types (s_classes s) base_type_exprs \<noteq> []
                 then [''('' @ join '', '' (base_types (s_classes s) base_type_exprs) @ '')'']
                 else [])
              @ [colon] @ body_out
            \<and> (pre = [] \<or> pre = [[]] \<or> pre = [''\<newline>''])
            \<and> (colon = '':\<newline>'' \<or> colon = '': pass\<newline>'')"
proof -
  define bp where "bp = (if base_types (s_classes s) base_type_exprs \<noteq> []
                 then [''('' @ join '', '' (base_types (s_classes s) base_type_exprs) @ '')'']
                 else [])"
  define rsv where "rsv = (if s_indent s = [] \<and> s_state s \<noteq> EMPTY then [''\<newline>''] else [])"
  obtain sep n s1 where en: "class_enter cname base_type_exprs s = (sep, n, s1)"
    by (cases "class_enter cname base_type_exprs s") auto
  with v obtain s2 where body: "visit_block defs s1 = Inr s2"
    and lv: "class_leave sep n s2 = Inr s'"
    by (auto split: sum.splits)
  have hdr: "class_header cname base_type_exprs s = rsv @ [''class '' @ cname] @ bp @ ['':\<newline>'']"
    by (simp add: class_header_def rsv_def bp_def)
  from en have s1: "s1 = s\<lparr>s_output := s_output s @ class_header cname base_type_exprs s,
        s_indent := s_indent s @ ''    '', s_vars := s_vars s @ [[]]\<rparr>"
    and n: "n = length (s_output s) + length (class_header cname base_type_exprs s)"
    unfolding class_enter_eq by auto
  have rs: "rsv = [] \<or> rsv = [[]] \<or> rsv = [''\<newline>'']" by (simp add: rsv_def)
  have "\<exists>pre colon body_out.
            s_output s' = s_output s @ pre @ [''class '' @ cname] @ bp @ [colon] @ body_out
            \<and> (pre = [] \<or> pre = [[]] \<or> pre = [''\<newline>''])
            \<and> (colon = '':\<newline>'' \<or> colon = '': pass\<newline>'')"
  proof (cases "length (s_output s2) = n")
    case False
    from visit_frame(2) [OF body] obtain e where
      o2: "s_output s2 = s_output s @ rsv @ [''class '' @ cname] @ bp @ ['':\<newline>''] @ e"
      unfolding visit_rel_def extends_def s1 hdr by auto
    from lv False have "s_output s' = s_output s2"
      unfolding class_leave_unfold Let_def by (auto split: if_splits)
    with o2 rs have "s_output s' = s_output s @ rsv @ [''class '' @ cname] @ bp @ ['':\<newline>''] @ e
            \<and> (rsv = [] \<or> rsv = [[]] \<or> rsv = [''\<newline>''])
            \<and> ('':\<newline>'' = '':\<newline>'' \<or> '':\<newline>'' = '': pass\<newline>'')" by simp
    then show ?thesis by (intro exI)
  next
    case len: True
    show ?thesis
    proof (cases "s_indent s \<noteq> [] \<and> s_state s = EMPTY_CLASS")
      case True
      then have "visit_stmt (ClassDef cname base_type_exprs defs) s = Inl UnboundLocalError"
        using nested_empty_class_general [OF en body len] by simp
      with v show ?thesis by simp
    next
      case False
      define pre where "pre = (if s_indent s = [] \<and> s_state s \<noteq> EMPTY
                then [if s_state s = EMPTY_CLASS then [] else ''\<newline>''] else [])"
      from empty_class_visit [OF en body len False] v
      have "s_output s' = s_output s @ pre @ [''class '' @ cname] @ bp @ ['': pass\<newline>''] @ []"
        by (auto simp: pre_def bp_def)
      moreover have "pre = [] \<or> pre = [[]] \<or> pre = [''\<newline>'']" by (simp add: pre_def)
      ultimately have "s_output s' = s_output s @ pre @ [''class '' @ cname] @ bp @ ['': pass\<newline>''] @ []
            \<and> (pre = [] \<or> pre = [[]] \<or> pre = [''\<newline>''])
            \<and> ('': pass\<newline>'' = '':\<newline>'' \<or> '': pass\<newline>'' = '': pass\<newline>'')" by simp
      then show ?thesis by (intro exI)
    qed
  qed
  then show ?thesis unfolding bp_def .
qed

lemma visit_mypy_file_classes:
  assumes "visit_mypy_file defs = Inr s'"
  shows "s_classes s' = find_classes defs"
proof -
  from assms have "visit_block defs (StubGenerator_init\<lparr>s_classes := find_classes defs\<rparr>) = Inr s'"
    by (simp add: visit_mypy_file_def)
  from visit_frame(2) [OF this] show ?thesis
    unfolding visit_rel_def extends_def by simp
qed

text \<open>
  Claim C7, as amended.  A base-class reference is kept in the rendered inheritance list,
  in its place, exactly when it is a bare name that is in the set collected by
  \<^verbatim>\<open>find_classes\<close> or ends with \<^verbatim>\<open>Exception\<close> or \<^verbatim>\<open>Error\<close>; the class visit emits
  the class name, the kept names in parentheses when there are any, and the colon.  The
  collected set is the set of the classes declared anywhere in the module outside class
  bodies: at the top level, in function bodies and in the branches of conditionals, at any
  depth; it is the set the generator holds during the whole run.  So \<^verbatim>\<open>class B(A, X)\<close>,
  with \<^verbatim>\<open>A\<close> declared outside every class body and \<^verbatim>\<open>X\<close> neither collected nor ending
  in \<^verbatim>\<open>Exception\<close> or \<^verbatim>\<open>Error\<close>, keeps \<^verbatim>\<open>A\<close> alone.
\<close>

theorem base_class_filter:
  "(name \<in> set (base_types (s_classes s) base_type_exprs) \<longleftrightarrow>
      NameExpr name \<in> set base_type_exprs \<and>
      (name \<in> s_classes s \<or> (\<exists>p. name = p @ ''Exception'') \<or> (\<exists>p. name = p @ ''Error'')))
   \<and> base_types (s_classes s) (xs @ ys) = base_types (s_classes s) xs @ base_types (s_classes s) ys
   \<and> (visit_stmt (ClassDef cname base_type_exprs defs) s = Inr s' \<longrightarrow>
        (\<exists>pre colon body_out.
            s_output s' =
              s_output s @ pre @ [''class '' @ cname]
              @ (if base_types (s_classes s) base_type_exprs \<noteq> []
                 then [''('' @ join '', '' (base_types (s_classes s) base_type_exprs) @ '')'']
                 else [])
              @ [colon] @ body_out
            \<and> (pre = [] \<or> pre = [[]] \<or> pre = [''\<newline>''])
            \<and> (colon = '':\<newline>'' \<or> colon = '': pass\<newline>'')))
   \<and> (c \<in> find_classes tree \<longleftrightarrow> declared_outside_class c tree)
   \<and> (visit_mypy_file tree = Inr final \<longrightarrow> s_classes final = find_classes tree)
   \<and> (declared_outside_class a tree \<and> x \<notin> find_classes tree \<and>
        \<not> endswith x ''Exception'' \<and> \<not> endswith x ''Error''
        \<longrightarrow> base_types (find_classes tree) [NameExpr a, NameExpr x] = [a])"
proof (intro conjI impI)
  show "name \<in> set (base_types (s_classes s) base_type_exprs) \<longleftrightarrow>
      NameExpr name \<in> set base_type_exprs \<and>
      (name \<in> s_classes s \<or> (\<exists>p. name = p @ ''Exception'') \<or> (\<exists>p. name = p @ ''Error''))"
    unfolding base_types_mem endswith_iff ..
next
  show "base_types (s_classes s) (xs @ ys) = base_types (s_classes s) xs @ base_types (s_classes s) ys"
    by (rule base_types_append)
next
  assume "visit_stmt (ClassDef cname base_type_exprs defs) s = Inr s'"
  then show "\<exists>pre colon body_out.
            s_output s' =
              s_output s @ pre @ [''class '' @ cname]
              @ (if base_types (s_classes s) base_type_exprs \<noteq> []
                 then [''('' @ join '', '' (base_types (s_classes s) base_type_exprs) @ '')'']
                 else [])
              @ [colon] @ body_out
            \<and> (pre = [] \<or> pre = [[]] \<or> pre = [''\<newline>''])
            \<and> (colon = '':\<newline>'' \<or> colon = '': pass\<newline>'')"
    by (rule class_visit_output)
next
  show "c \<in> find_classes tree \<longleftrightarrow> declared_outside_class c tree" by (rule find_classes_iff)
next
  assume "visit_mypy_file tree = Inr final"
  then show "s_classes final = find_classes tree" by (rule visit_mypy_file_classes)
next
  assume "declared_outside_class a tree \<and> x \<notin> find_classes tree \<and>
        \<not> endswith x ''Exception'' \<and> \<not> endswith x ''Error''"
  then show "base_types (find_classes tree) [NameExpr a, NameExpr x] = [a]"
    using find_classes_iff by auto
qed

theorem base_class_filter_witness:
  "visit_stmt (ClassDef ''B'' [NameExpr ''A'', NameExpr ''X''] [PassStmt]) (StubGenerator_init\<lparr>s_classes := {''A'', ''B''}\<rparr>) = Inr (StubGenerator_init\<lparr>s_output := [''class B'', ''(A)'', '': pass\<newline>''], s_state := EMPTY_CLASS, s_classes := {''A'', ''B''}\<rparr>)
   \<and> (\<exists>pre colon body_out.
            s_output (StubGenerator_init\<lparr>s_output := [''class B'', ''(A)'', '': pass\<newline>''], s_state := EMPTY_CLASS, s_classes := {''A'', ''B''}\<rparr>) =
              s_output (StubGenerator_init\<lparr>s_classes := {''A'', ''B''}\<rparr>) @ pre @ [''class '' @ ''B'']
              @ (if base_types (s_classes (StubGenerator_init\<lparr>s_classes := {''A'', ''B''}\<rparr>)) [NameExpr ''A'', NameExpr ''X''] \<noteq> []
                 then [''('' @ join '', '' (base_types (s_classes (StubGenerator_init\<lparr>s_classes := {''A'', ''B''}\<rparr>)) [NameExpr ''A'', NameExpr ''X'']) @ '')'']
                 else [])
              @ [colon] @ body_out
            \<and> (pre = [] \<or> pre = [[]] \<or> pre = [''\<newline>''])
            \<and> (colon = '':\<newline>'' \<or> colon = '': pass\<newline>''))
   \<and> declared_outside_class ''A'' [IfStmt [NameExpr ''PY3''] [[ClassDef ''A'' [] [PassStmt]]] None, ClassDef ''B'' [NameExpr ''A'', NameExpr ''X''] [PassStmt]]
   \<and> ''X'' \<notin> find_classes [IfStmt [NameExpr ''PY3''] [[ClassDef ''A'' [] [PassStmt]]] None, ClassDef ''B'' [NameExpr ''A'', NameExpr ''X''] [PassStmt]]
   \<and> \<not> endswith ''X'' ''Exception'' \<and> \<not> endswith ''X'' ''Error''
   \<and> base_types (find_classes [IfStmt [NameExpr ''PY3''] [[ClassDef ''A'' [] [PassStmt]]] None, ClassDef ''B'' [NameExpr ''A'', NameExpr ''X''] [PassStmt]]) [NameExpr ''A'', NameExpr ''X''] = [''A'']
   \<and> visit_mypy_file [IfStmt [NameExpr ''PY3''] [[ClassDef ''A'' [] [PassStmt]]] None, ClassDef ''B'' [NameExpr ''A'', NameExpr ''X''] [PassStmt]] = Inr (StubGenerator_init\<lparr>s_output := [''class A'', '': pass\<newline>'', [], ''class B'', ''(A)'', '': pass\<newline>''], s_state := EMPTY_CLASS, s_classes := {''A'', ''B''}\<rparr>)
   \<and> s_classes (StubGenerator_init\<lparr>s_output := [''class A'', '': pass\<newline>'', [], ''class B'', ''(A)'', '': pass\<newline>''], s_state := EMPTY_CLASS, s_classes := {''A'', ''B''}\<rparr>) = find_classes [IfStmt [NameExpr ''PY3''] [[ClassDef ''A'' [] [PassStmt]]] None, ClassDef ''B'' [NameExpr ''A'', NameExpr ''X''] [PassStmt]]"
proof -
  note t1 = base_class_filter [where s = "StubGenerator_init\<lparr>s_classes := {''A'', ''B''}\<rparr>" and s' = "StubGenerator_init\<lparr>s_output := [''class B'', ''(A)'', '': pass\<newline>''], s_state := EMPTY_CLASS, s_classes := {''A'', ''B''}\<rparr>"
      and cname = "''B''" and base_type_exprs = "[NameExpr ''A'', NameExpr ''X'']"
      and defs = "[PassStmt]"]
  note t2 = base_class_filter [where tree = "[IfStmt [NameExpr ''PY3''] [[ClassDef ''A'' [] [PassStmt]]] None, ClassDef ''B'' [NameExpr ''A'', NameExpr ''X''] [PassStmt]]" and c = "''A''" and a = "''A''"
      and x = "''X''" and final = "StubGenerator_init\<lparr>s_output := [''class A'', '': pass\<newline>'', [], ''class B'', ''(A)'', '': pass\<newline>''], s_state := EMPTY_CLASS, s_classes := {''A'', ''B''}\<rparr>"]
  have a: "visit_stmt (ClassDef ''B'' [NameExpr ''A'', NameExpr ''X''] [PassStmt]) (StubGenerator_init\<lparr>s_classes := {''A'', ''B''}\<rparr>) = Inr (StubGenerator_init\<lparr>s_output := [''class B'', ''(A)'', '': pass\<newline>''], s_state := EMPTY_CLASS, s_classes := {''A'', ''B''}\<rparr>)"
    by (simp add: run_simps)
  have b: "\<exists>pre colon body_out.
            s_output (StubGenerator_init\<lparr>s_output := [''class B'', ''(A)'', '': pass\<newline>''], s_state := EMPTY_CLASS, s_classes := {''A'', ''B''}\<rparr>) =
              s_output (StubGenerator_init\<lparr>s_classes := {''A'', ''B''}\<rparr>) @ pre @ [''class '' @ ''B'']
              @ (if base_types (s_classes (StubGenerator_init\<lparr>s_classes := {''A'', ''B''}\<rparr>)) [NameExpr ''A'', NameExpr ''X''] \<noteq> []
                 then [''('' @ join '', '' (base_types (s_classes (StubGenerator_init\<lparr>s_classes := {''A'', ''B''}\<rparr>)) [NameExpr ''A'', NameExpr ''X'']) @ '')'']
                 else [])
              @ [colon] @ body_out
            \<and> (pre = [] \<or> pre = [[]] \<or> pre = [''\<newline>''])
            \<and> (colon = '':\<newline>'' \<or> colon = '': pass\<newline>'')"
    by (rule t1 [THEN conjunct2, THEN conjunct2, THEN conjunct1, THEN mp, OF a])
  have fc: "find_classes [IfStmt [NameExpr ''PY3''] [[ClassDef ''A'' [] [PassStmt]]] None, ClassDef ''B'' [NameExpr ''A'', NameExpr ''X''] [PassStmt]] = {''A'', ''B''}"
    by (auto simp: find_classes_def)
  have d: "declared_outside_class ''A'' [IfStmt [NameExpr ''PY3''] [[ClassDef ''A'' [] [PassStmt]]] None, ClassDef ''B'' [NameExpr ''A'', NameExpr ''X''] [PassStmt]]"
    using t2 [THEN conjunct2, THEN conjunct2, THEN conjunct2, THEN conjunct1] fc by simp
  have e: "''X'' \<notin> find_classes [IfStmt [NameExpr ''PY3''] [[ClassDef ''A'' [] [PassStmt]]] None, ClassDef ''B'' [NameExpr ''A'', NameExpr ''X''] [PassStmt]]" by (simp add: fc)
  have f: "\<not> endswith ''X'' ''Exception''" "\<not> endswith ''X'' ''Error''"
    by (simp_all add: endswith_def)
  have g: "base_types (find_classes [IfStmt [NameExpr ''PY3''] [[ClassDef ''A'' [] [PassStmt]]] None, ClassDef ''B'' [NameExpr ''A'', NameExpr ''X''] [PassStmt]]) [NameExpr ''A'', NameExpr ''X''] = [''A'']"
    by (simp add: fc endswith_def)
  have h: "visit_mypy_file [IfStmt [NameExpr ''PY3''] [[ClassDef ''A'' [] [PassStmt]]] None, ClassDef ''B'' [NameExpr ''A'', NameExpr ''X''] [PassStmt]] = Inr (StubGenerator_init\<lparr>s_output := [''class A'', '': pass\<newline>'', [], ''class B'', ''(A)'', '': pass\<newline>''], s_state := EMPTY_CLASS, s_classes := {''A'', ''B''}\<rparr>)"
    unfolding visit_mypy_file_def fc by (simp add: run_simps)
  have i: "s_classes (StubGenerator_init\<lparr>s_output := [''class A'', '': pass\<newline>'', [], ''class B'', ''(A)'', '': pass\<newline>''], s_state := EMPTY_CLASS, s_classes := {''A'', ''B''}\<rparr>) = find_classes [IfStmt [NameExpr ''PY3''] [[ClassDef ''A'' [] [PassStmt]]] None, ClassDef ''B'' [NameExpr ''A'', NameExpr ''X''] [PassStmt]]"
    by (rule t2 [THEN conjunct2, THEN conjunct2, THEN conjunct2, THEN conjunct2, THEN conjunct1,
          THEN mp, OF h])
  show ?thesis
    by (rule conjI, rule a, rule conjI, rule b, rule conjI, rule d, rule conjI, rule e,
        rule conjI, rule f(1), rule conjI, rule f(2), rule conjI, rule g, rule conjI, rule h,
        rule i)
qed

text \<open>A class declared in a conditional is collected and kept as a base.\<close>

lemma conditional_base_class_example:
  "generate_stub
     [IfStmt [NameExpr ''PY3''] [[ClassDef ''A'' [] [AssignmentStmt [NameExpr ''x''] (IntExpr 1)]]] None,
      ClassDef ''B'' [NameExpr ''A'', NameExpr ''X''] [AssignmentStmt [NameExpr ''y''] (IntExpr 1)]]
   = Inr ''from typing import Undefined, Any\<newline>\<newline>class A:\<newline>    x = Undefined(Any)\<newline>\<newline>class B(A):\<newline>    y = Undefined(Any)\<newline>''"
proof -
  have fc: "find_classes
     [IfStmt [NameExpr ''PY3''] [[ClassDef ''A'' [] [AssignmentStmt [NameExpr ''x''] (IntExpr 1)]]] None,
      ClassDef ''B'' [NameExpr ''A'', NameExpr ''X''] [AssignmentStmt [NameExpr ''y''] (IntExpr 1)]]
     = {''A'', ''B''}"
    by (auto simp: find_classes_def)
  show ?thesis unfolding generate_stub_def visit_mypy_file_def fc by (simp add: run_simps)
qed

end
